theory Spec2Isabelle
  imports Complex_Main
begin

section \<open>JSON snapshots and the Python operations applied to them\<close>

text \<open>
  The management API answers with JSON, and \<^verbatim>\<open>monitor.py\<close> reads it with \<^verbatim>\<open>dict.get\<close>,
  compares the values with integers and divides them.  A value is kept as Python has it
  after \<^verbatim>\<open>response.json()\<close>.  A number (Python \<^verbatim>\<open>int\<close> or \<^verbatim>\<open>float\<close>) is the real it
  stands for.  Comparisons are exact, as Python compares numbers; a division, and every
  operation on its \<^verbatim>\<open>float\<close> result, is rounded to the nearest double (\<open>round_double\<close>
  below).  A dict is an association list, looked up with \<open>map_of\<close>.
\<close>

datatype json =
  JNull
  | JBool bool
  | JNum real
  | JStr string
  | JArr "json list"
  | JObj "(string \<times> json) list"

text \<open>The exceptions the health checks can meet on a JSON value of an unexpected type.\<close>

datatype py_error = TypeError | AttributeError | ZeroDivisionError

text \<open>A Python \<^verbatim>\<open>bool\<close> is an \<^verbatim>\<open>int\<close>: it takes part in comparisons and division as 0 or 1.\<close>

definition num_of :: "json \<Rightarrow> real option" where
  "num_of v = (case v of JNum r \<Rightarrow> Some r | JBool b \<Rightarrow> Some (if b then 1 else 0) | _ \<Rightarrow> None)"

text \<open>\<^verbatim>\<open>v > n\<close> and \<^verbatim>\<open>v < n\<close> for an integer \<open>n\<close>: a \<^verbatim>\<open>TypeError\<close> unless \<open>v\<close> is a number.\<close>

definition py_gt :: "json \<Rightarrow> int \<Rightarrow> py_error + bool" where
  "py_gt v n = (case num_of v of None \<Rightarrow> Inl TypeError | Some r \<Rightarrow> Inr (real_of_int n < r))"

definition py_lt :: "json \<Rightarrow> int \<Rightarrow> py_error + bool" where
  "py_lt v n = (case num_of v of None \<Rightarrow> Inl TypeError | Some r \<Rightarrow> Inr (r < real_of_int n))"

text \<open>\<^verbatim>\<open>v == n\<close> never raises: a value that is not a number is unequal to every integer.\<close>

definition py_eq :: "json \<Rightarrow> int \<Rightarrow> bool" where
  "py_eq v n = (case num_of v of None \<Rightarrow> False | Some r \<Rightarrow> r = real_of_int n)"

text \<open>
  Double precision, as IEEE 754 has it.  \<open>round_half_even\<close> is the nearest integer to a
  real, a tie going to the even one.  The doubles around a real \<open>x\<close> are the multiples of
  a power of two, the unit in the last of their 53 binary places: \<open>2 powi e\<close> for the
  greatest \<open>e\<close> from \<open>- 1073\<close> to 971 with \<open>2 powi (e + 52) \<le> \<bar>x\<bar>\<close>, and \<open>2 powi - 1074\<close>
  for the subnormal numbers below them all.  \<open>ulp_exponent\<close> searches that \<open>e\<close> from the
  top, and \<open>round_double\<close> is the nearest such multiple.  Values past the largest double,
  where Python gives \<^verbatim>\<open>inf\<close> or raises \<^verbatim>\<open>OverflowError\<close>, are left as this formula rounds
  them.
\<close>

definition round_half_even :: "real \<Rightarrow> int" where
  "round_half_even q =
     (let f = \<lfloor>q\<rfloor>; d = q - real_of_int f
      in if d < 1 / 2 then f else if 1 / 2 < d then f + 1 else if even f then f else f + 1)"

fun ulp_exponent :: "nat \<Rightarrow> real \<Rightarrow> int" where
  "ulp_exponent 0 x = - 1074"
| "ulp_exponent (Suc n) x =
     (if 2 powi (int n - 1021) \<le> x then int n - 1073 else ulp_exponent n x)"

definition round_double :: "real \<Rightarrow> real" where
  "round_double x =
     (let e = ulp_exponent 2045 \<bar>x\<bar>
      in real_of_int (round_half_even (x / 2 powi e)) * 2 powi e)"

text \<open>
  \<^verbatim>\<open>a / b\<close>, true division: the quotient rounded to a double.  (Of two \<^verbatim>\<open>int\<close>s Python
  rounds the exact quotient, of two \<^verbatim>\<open>float\<close>s likewise; an \<^verbatim>\<open>int\<close> met with a \<^verbatim>\<open>float\<close> is
  first made a \<^verbatim>\<open>float\<close>, which changes nothing below \<open>2 ^ 53\<close>.)
\<close>

definition py_truediv :: "json \<Rightarrow> json \<Rightarrow> py_error + real" where
  "py_truediv a b =
     (case (num_of a, num_of b) of
        (Some x, Some y) \<Rightarrow>
          if y = 0 then Inl ZeroDivisionError else Inr (round_double (x / y))
      | _ \<Rightarrow> Inl TypeError)"

text \<open>Truthiness, as \<^verbatim>\<open>if not queues\<close> and \<^verbatim>\<open>if not running\<close> test it.\<close>

definition py_bool :: "json \<Rightarrow> bool" where
  "py_bool v =
     (case v of
        JNull \<Rightarrow> False
      | JBool b \<Rightarrow> b
      | JNum r \<Rightarrow> r \<noteq> 0
      | JStr s \<Rightarrow> s \<noteq> []
      | JArr xs \<Rightarrow> xs \<noteq> []
      | JObj kvs \<Rightarrow> kvs \<noteq> [])"

text \<open>\<^verbatim>\<open>v.get(key, default)\<close>: only a dict has the method.\<close>

definition dict_get :: "json \<Rightarrow> string \<Rightarrow> json \<Rightarrow> py_error + json" where
  "dict_get v k d =
     (case v of
        JObj kvs \<Rightarrow> Inr (case map_of kvs k of None \<Rightarrow> d | Some x \<Rightarrow> x)
      | _ \<Rightarrow> Inl AttributeError)"

text \<open>
  \<^verbatim>\<open>for x in v\<close>: a list gives its elements, a dict its keys, a string its characters;
  anything else is not iterable.
\<close>

definition py_iter :: "json \<Rightarrow> py_error + json list" where
  "py_iter v =
     (case v of
        JArr xs \<Rightarrow> Inr xs
      | JObj kvs \<Rightarrow> Inr (map (\<lambda>kv. JStr (fst kv)) kvs)
      | JStr s \<Rightarrow> Inr (map (\<lambda>c. JStr [c]) s)
      | _ \<Rightarrow> Inl TypeError)"

text \<open>
  \<^verbatim>\<open>f"{v}"\<close>: a string is inserted as it is.  What Python's \<^verbatim>\<open>str\<close> prints for any other
  value is a parameter \<open>repr\<close> of the model.
\<close>

definition py_str :: "(json \<Rightarrow> string) \<Rightarrow> json \<Rightarrow> string" where
  "py_str repr v = (case v of JStr s \<Rightarrow> s | _ \<Rightarrow> repr v)"


section \<open>The monitor and its surroundings\<close>

record alert_thresholds =
  max_queue_length :: int
  max_unacknowledged_messages :: int
  min_consumers_per_queue :: int
  max_memory_usage_percent :: int
  max_disk_usage_percent :: int
  processing_halt_threshold :: int
  connection_failure_threshold :: int

text \<open>The defaults of the dataclass \<^verbatim>\<open>AlertThresholds\<close>.\<close>

definition default_thresholds :: alert_thresholds where
  "default_thresholds =
     \<lparr> max_queue_length = 1000,
       max_unacknowledged_messages = 500,
       min_consumers_per_queue = 1,
       max_memory_usage_percent = 80,
       max_disk_usage_percent = 85,
       processing_halt_threshold = 100,
       connection_failure_threshold = 3 \<rparr>"

text \<open>
  The fields of \<^verbatim>\<open>RabbitMQMonitor\<close> that the checks read or write.  The broker's host, port
  and credentials only build the request, and \<^verbatim>\<open>alert_cooldown\<close> is assigned and never
  read; they are left out.  \<open>last_alerts\<close> is the dict from alert key to the time of the
  last alert.
\<close>

record monitor =
  slack_webhook_url :: "string option"
  thresholds :: alert_thresholds
  last_alerts :: "string \<rightharpoonup> real"
  long_job_queues :: "string list"
  long_job_threshold :: int
  long_job_cooldown :: int
  default_alert_cooldown :: int
  connection_failures :: int

text \<open>
  \<^verbatim>\<open>__init__\<close>, from the values of the environment variables once parsed: the override
  list falls back to the two location-ranges queues when the variable names no queue.
\<close>

definition init_monitor :: "string option \<Rightarrow> string list \<Rightarrow> int \<Rightarrow> int \<Rightarrow> int \<Rightarrow> monitor" where
  "init_monitor webhook queues_env threshold_env cooldown_env default_cooldown_env =
     \<lparr> slack_webhook_url = webhook,
       thresholds = default_thresholds,
       last_alerts = Map.empty,
       long_job_queues =
         (if queues_env \<noteq> [] then queues_env
          else [''colateral-events-production-location-ranges.delay'',
                ''colateral-events-production-location-ranges'']),
       long_job_threshold = threshold_env,
       long_job_cooldown = cooldown_env,
       default_alert_cooldown = default_cooldown_env,
       connection_failures = 0 \<rparr>"

text \<open>The text of a notification: which template, and the values it interpolates.\<close>

datatype message =
  QueueBackupDetected json json int json
  | HighUnacknowledged json json int
  | MissingConsumers json json json int
  | ProcessingHalted json json json json
  | HighMemoryUsage json real int json
  | HighDiskUsage json real int json
  | NodeIsDown json
  | ApiConnectionFailed int
  | MonitoringError py_error
  | MonitoringStarted int

datatype level = INFO | WARNING | ERROR

datatype log_event =
  LogNoWebhook
  | LogAlertSent message
  | LogAlertFailed nat
  | LogAlertError
  | LogApiFailed nat string
  | LogFetchError string
  | LogRunning
  | LogCompleted
  | LogCheckError py_error
  | LogStarting int

text \<open>
  What a GET of the management API comes to: a response with its status and its body as
  JSON (\<open>None\<close> when \<^verbatim>\<open>response.json()\<close> raises), or an exception of the client
  (connection refused, timeout).  A POST to the webhook likewise.
\<close>

datatype http_result = Response nat "json option" | RequestRaised

datatype post_result = PostStatus nat | PostRaised

record payload =
  color :: string
  body_text :: message
  ts :: int

text \<open>
  Everything outside the monitor object is part of the \<open>world\<close>: the readings
  \<^verbatim>\<open>time.time()\<close> will give, the outcomes the HTTP requests will have, Python's printing of
  values, and what the program has handed to the outside so far (the calls of
  \<^verbatim>\<open>send_slack_alert\<close>, the payloads posted, the log).
\<close>

record world =
  self :: monitor
  clock :: "nat \<Rightarrow> real"
  clock_reads :: nat
  http_get :: "nat \<Rightarrow> http_result"
  gets :: nat
  http_post :: "nat \<Rightarrow> post_result"
  posts :: nat
  py_repr :: "json \<Rightarrow> string"
  slack_calls :: "(message \<times> string) list"
  posted :: "payload list"
  logged :: "(level \<times> log_event) list"

text \<open>The next reading of \<^verbatim>\<open>time.time()\<close>.\<close>

definition time_now :: "world \<Rightarrow> real" where
  "time_now w = clock w (clock_reads w)"

definition tick :: "world \<Rightarrow> world" where
  "tick w = w\<lparr>clock_reads := Suc (clock_reads w)\<rparr>"

definition say :: "level \<Rightarrow> log_event \<Rightarrow> world \<Rightarrow> world" where
  "say l e w = w\<lparr>logged := logged w @ [(l, e)]\<rparr>"

definition update_self :: "(monitor \<Rightarrow> monitor) \<Rightarrow> world \<Rightarrow> world" where
  "update_self f w = w\<lparr>self := f (self w)\<rparr>"

text \<open>
  A step of the program that may raise: the exception or the result, and the world after
  it.  What was written before an exception stays written.
\<close>

type_synonym 'a action = "world \<Rightarrow> (py_error + 'a) \<times> world"

definition ret :: "'a \<Rightarrow> 'a action" where
  "ret x = (\<lambda>w. (Inr x, w))"

definition lift :: "py_error + 'a \<Rightarrow> 'a action" where
  "lift r = (\<lambda>w. (r, w))"

definition and_then :: "'a action \<Rightarrow> ('a \<Rightarrow> 'b action) \<Rightarrow> 'b action" where
  "and_then m f = (\<lambda>w. case m w of (Inl e, w') \<Rightarrow> (Inl e, w') | (Inr x, w') \<Rightarrow> f x w')"

text \<open>A \<^verbatim>\<open>for\<close> loop: the body on each element in turn, left at the first exception.\<close>

fun for_each :: "('a \<Rightarrow> unit action) \<Rightarrow> 'a list \<Rightarrow> unit action" where
  "for_each f [] = ret ()"
| "for_each f (x # xs) = and_then (f x) (\<lambda>_. for_each f xs)"


section \<open>Configuration lookup, notification and cooldown\<close>

text \<open>
  \<^verbatim>\<open>get_queue_config\<close>: threshold and cooldown of a queue.  The name comes from the snapshot
  and \<^verbatim>\<open>in\<close> compares it with the strings of the override list.
\<close>

definition get_queue_config :: "monitor \<Rightarrow> json \<Rightarrow> int \<times> int" where
  "get_queue_config m queue_name =
     (if queue_name \<in> JStr ` set (long_job_queues m)
      then (long_job_threshold m, long_job_cooldown m)
      else (max_queue_length (thresholds m), default_alert_cooldown m))"

definition color_of :: "string \<Rightarrow> string" where
  "color_of severity =
     (if severity = ''critical'' then ''#FF0000''
      else if severity = ''warning'' then ''#FFA500''
      else if severity = ''info'' then ''#36A64F''
      else ''#FFA500'')"

text \<open>
  \<^verbatim>\<open>send_slack_alert\<close>.  Without a webhook URL (unset or empty) it logs and returns.
  Otherwise it builds the payload, reading the clock for \<^verbatim>\<open>ts\<close>, and posts it; a status
  other than 200 and an exception of the client are logged and nothing else.  It never
  raises and never touches the monitor.  Each call is recorded in \<open>slack_calls\<close>.
\<close>

definition send_slack_alert :: "message \<Rightarrow> string \<Rightarrow> world \<Rightarrow> world" where
  "send_slack_alert msg severity w =
     (let w0 = w\<lparr>slack_calls := slack_calls w @ [(msg, severity)]\<rparr> in
      if slack_webhook_url (self w0) = None \<or> slack_webhook_url (self w0) = Some []
      then say WARNING LogNoWebhook w0
      else
        (let p = \<lparr> color = color_of severity, body_text = msg, ts = \<lfloor>time_now w0\<rfloor> \<rparr>;
             w1 = tick w0;
             outcome = http_post w1 (posts w1);
             w2 = w1\<lparr>posts := Suc (posts w1), posted := posted w1 @ [p]\<rparr>
         in case outcome of
              PostStatus status \<Rightarrow>
                if status = 200 then say INFO (LogAlertSent msg) w2
                else say ERROR (LogAlertFailed status) w2
            | PostRaised \<Rightarrow> say ERROR LogAlertError w2))"

text \<open>
  \<^verbatim>\<open>should_send_alert\<close>: reads the clock, takes the cooldown given or the default one,
  answers \<open>False\<close> when the key has a record younger than the cooldown, and otherwise
  records the reading under the key and answers \<open>True\<close>.  The readings are doubles of one
  binade (seconds since 1970, for dates from 2004 to 2038), and the difference of two such
  doubles is a double: the subtraction is exact.
\<close>

definition effective_cooldown :: "monitor \<Rightarrow> int option \<Rightarrow> int" where
  "effective_cooldown m cooldown =
     (case cooldown of Some c \<Rightarrow> c | None \<Rightarrow> default_alert_cooldown m)"

definition should_send_alert :: "string \<Rightarrow> int option \<Rightarrow> world \<Rightarrow> bool \<times> world" where
  "should_send_alert alert_key cooldown w =
     (let now = time_now w;
          w1 = tick w;
          cd = effective_cooldown (self w1) cooldown
      in case last_alerts (self w1) alert_key of
           Some t \<Rightarrow>
             if now - t < real_of_int cd then (False, w1)
             else (True, update_self (\<lambda>m. m\<lparr>last_alerts := (last_alerts m)(alert_key \<mapsto> now)\<rparr>) w1)
         | None \<Rightarrow>
             (True, update_self (\<lambda>m. m\<lparr>last_alerts := (last_alerts m)(alert_key \<mapsto> now)\<rparr>) w1))"

text \<open>
  The pattern every rule ends with:
  \<^verbatim>\<open>if self.should_send_alert(key, cd): await self.send_slack_alert(msg, severity)\<close>.
\<close>

definition alert :: "string \<Rightarrow> int option \<Rightarrow> message \<Rightarrow> string \<Rightarrow> world \<Rightarrow> world" where
  "alert alert_key cooldown msg severity w =
     (case should_send_alert alert_key cooldown w of
        (True, w') \<Rightarrow> send_slack_alert msg severity w'
      | (False, w') \<Rightarrow> w')"

text \<open>
  The alert keys.  The source writes each as an f-string, a fixed prefix before the name
  of the queue or node; the connectivity rule has the one key \<^verbatim>\<open>connection_failures\<close>.
\<close>

datatype rule =
  QueueBackup | Unacked | NoConsumers | ProcessingHalt | Memory | Disk | NodeDown

definition key_prefix :: "rule \<Rightarrow> string" where
  "key_prefix r =
     (case r of
        QueueBackup \<Rightarrow> ''queue_backup_''
      | Unacked \<Rightarrow> ''unacked_''
      | NoConsumers \<Rightarrow> ''no_consumers_''
      | ProcessingHalt \<Rightarrow> ''processing_halt_''
      | Memory \<Rightarrow> ''memory_''
      | Disk \<Rightarrow> ''disk_''
      | NodeDown \<Rightarrow> ''node_down_'')"

definition alert_key :: "(json \<Rightarrow> string) \<Rightarrow> rule \<Rightarrow> json \<Rightarrow> string" where
  "alert_key repr r name = key_prefix r @ py_str repr name"

definition connection_key :: string where
  "connection_key = ''connection_failures''"

text \<open>The rule whose template a message is written from, if it is a rule with keys per entity.\<close>

definition rule_of :: "message \<Rightarrow> rule option" where
  "rule_of msg =
     (case msg of
        QueueBackupDetected _ _ _ _ \<Rightarrow> Some QueueBackup
      | HighUnacknowledged _ _ _ \<Rightarrow> Some Unacked
      | MissingConsumers _ _ _ _ \<Rightarrow> Some NoConsumers
      | ProcessingHalted _ _ _ _ \<Rightarrow> Some ProcessingHalt
      | HighMemoryUsage _ _ _ _ \<Rightarrow> Some Memory
      | HighDiskUsage _ _ _ _ \<Rightarrow> Some Disk
      | NodeIsDown _ \<Rightarrow> Some NodeDown
      | _ \<Rightarrow> None)"

text \<open>The calls of \<^verbatim>\<open>send_slack_alert\<close> made for a rule.\<close>

definition calls_of :: "rule \<Rightarrow> world \<Rightarrow> (message \<times> string) list" where
  "calls_of r w = filter (\<lambda>c. rule_of (fst c) = Some r) (slack_calls w)"


section \<open>Fetching\<close>

text \<open>
  \<^verbatim>\<open>get_api_data\<close>.  Status 200 sets the failure counter to zero and returns the decoded
  body; any other status is logged and \<open>None\<close> returned, the counter untouched.  An
  exception anywhere in the \<^verbatim>\<open>try\<close> (the request, or decoding the body of a 200 response)
  adds one to the counter.  \<open>None\<close> is \<open>JNull\<close>.
\<close>

definition get_api_data :: "string \<Rightarrow> world \<Rightarrow> json \<times> world" where
  "get_api_data endpoint w =
     (let outcome = http_get w (gets w);
          w1 = w\<lparr>gets := Suc (gets w)\<rparr>;
          failed = (\<lambda>v. say ERROR (LogFetchError endpoint)
                      (update_self (\<lambda>m. m\<lparr>connection_failures := connection_failures m + 1\<rparr>) v))
      in case outcome of
           Response status body \<Rightarrow>
             if status = 200 then
               (let w2 = update_self (\<lambda>m. m\<lparr>connection_failures := 0\<rparr>) w1
                in case body of
                     Some j \<Rightarrow> (j, w2)
                   | None \<Rightarrow> (JNull, failed w2))
             else (JNull, say ERROR (LogApiFailed status endpoint) w1)
         | RequestRaised \<Rightarrow> (JNull, failed w1))"


section \<open>The queue rules\<close>

text \<open>Queue backup: \<^verbatim>\<open>messages > queue_threshold\<close>, severity critical.\<close>

definition queue_backup_rule :: "json \<Rightarrow> json \<Rightarrow> json \<Rightarrow> int \<Rightarrow> int \<Rightarrow> unit action" where
  "queue_backup_rule queue_name vhost messages queue_threshold queue_cooldown w =
     (case py_gt messages queue_threshold of
        Inl e \<Rightarrow> (Inl e, w)
      | Inr over \<Rightarrow>
          (Inr (),
           if over
           then alert (alert_key (py_repr w) QueueBackup queue_name) (Some queue_cooldown)
                  (QueueBackupDetected queue_name messages queue_threshold vhost) ''critical'' w
           else w))"

text \<open>Unacknowledged backlog: \<^verbatim>\<open>unacked > max_unacknowledged_messages\<close>, severity warning.\<close>

definition unacked_rule :: "json \<Rightarrow> json \<Rightarrow> int \<Rightarrow> unit action" where
  "unacked_rule queue_name unacked queue_cooldown w =
     (case py_gt unacked (max_unacknowledged_messages (thresholds (self w))) of
        Inl e \<Rightarrow> (Inl e, w)
      | Inr over \<Rightarrow>
          (Inr (),
           if over
           then alert (alert_key (py_repr w) Unacked queue_name) (Some queue_cooldown)
                  (HighUnacknowledged queue_name unacked
                     (max_unacknowledged_messages (thresholds (self w)))) ''warning'' w
           else w))"

text \<open>
  Missing consumers: \<^verbatim>\<open>messages > 0 and consumers < min_consumers_per_queue\<close>; the second
  comparison is made only when the first holds.
\<close>

definition no_consumers_condition :: "monitor \<Rightarrow> json \<Rightarrow> json \<Rightarrow> py_error + bool" where
  "no_consumers_condition m messages consumers =
     (case py_gt messages 0 of
        Inl e \<Rightarrow> Inl e
      | Inr False \<Rightarrow> Inr False
      | Inr True \<Rightarrow> py_lt consumers (min_consumers_per_queue (thresholds m)))"

definition no_consumers_rule :: "json \<Rightarrow> json \<Rightarrow> json \<Rightarrow> int \<Rightarrow> unit action" where
  "no_consumers_rule queue_name messages consumers queue_cooldown w =
     (case no_consumers_condition (self w) messages consumers of
        Inl e \<Rightarrow> (Inl e, w)
      | Inr missing \<Rightarrow>
          (Inr (),
           if missing
           then alert (alert_key (py_repr w) NoConsumers queue_name) (Some queue_cooldown)
                  (MissingConsumers queue_name messages consumers
                     (min_consumers_per_queue (thresholds (self w)))) ''warning'' w
           else w))"

text \<open>
  Processing halt.  The rates are read through two levels of \<^verbatim>\<open>.get\<close> with defaults
  \<^verbatim>\<open>{}\<close> and \<^verbatim>\<open>0\<close>; the condition is
  \<^verbatim>\<open>messages > processing_halt_threshold and consume_rate == 0 and publish_rate > 0\<close>,
  evaluated left to right and cut short at the first false conjunct.
\<close>

definition rate_of :: "json \<Rightarrow> string \<Rightarrow> py_error + json" where
  "rate_of message_stats details =
     (case dict_get message_stats details (JObj []) of
        Inl e \<Rightarrow> Inl e
      | Inr d \<Rightarrow> dict_get d ''rate'' (JNum 0))"

definition processing_halt_condition :: "monitor \<Rightarrow> json \<Rightarrow> json \<Rightarrow> json \<Rightarrow> py_error + bool" where
  "processing_halt_condition m messages consume_rate publish_rate =
     (case py_gt messages (processing_halt_threshold (thresholds m)) of
        Inl e \<Rightarrow> Inl e
      | Inr False \<Rightarrow> Inr False
      | Inr True \<Rightarrow> if py_eq consume_rate 0 then py_gt publish_rate 0 else Inr False)"

definition processing_halt_rule :: "json \<Rightarrow> json \<Rightarrow> json \<Rightarrow> int \<Rightarrow> unit action" where
  "processing_halt_rule queue queue_name messages queue_cooldown =
     and_then (lift (dict_get queue ''message_stats'' (JObj []))) (\<lambda>message_stats.
     and_then (lift (rate_of message_stats ''publish_details'')) (\<lambda>publish_rate.
     and_then (lift (rate_of message_stats ''deliver_get_details'')) (\<lambda>consume_rate.
       (\<lambda>w. case processing_halt_condition (self w) messages consume_rate publish_rate of
               Inl e \<Rightarrow> (Inl e, w)
             | Inr halted \<Rightarrow>
                 (Inr (),
                  if halted
                  then alert (alert_key (py_repr w) ProcessingHalt queue_name) (Some queue_cooldown)
                         (ProcessingHalted queue_name messages publish_rate consume_rate)
                         ''critical'' w
                  else w)))))"

text \<open>
  The body of the loop of \<^verbatim>\<open>check_queue_health\<close>, up to and without the processing-halt
  block: name, vhost and configuration of the queue, then the three rules on depth,
  unacknowledged messages and consumers.  It hands on what the last block reads.
\<close>

definition check_queue_counts :: "json \<Rightarrow> (json \<times> json \<times> int) action" where
  "check_queue_counts queue =
     and_then (lift (dict_get queue ''name'' (JStr ''unknown''))) (\<lambda>queue_name.
     and_then (lift (dict_get queue ''vhost'' (JStr ''/''))) (\<lambda>vhost.
     (\<lambda>w. (case get_queue_config (self w) queue_name of
             (queue_threshold, queue_cooldown) \<Rightarrow>
               and_then (lift (dict_get queue ''messages'' (JNum 0))) (\<lambda>messages.
               and_then (queue_backup_rule queue_name vhost messages queue_threshold queue_cooldown) (\<lambda>_.
               and_then (lift (dict_get queue ''messages_unacknowledged'' (JNum 0))) (\<lambda>unacked.
               and_then (unacked_rule queue_name unacked queue_cooldown) (\<lambda>_.
               and_then (lift (dict_get queue ''consumers'' (JNum 0))) (\<lambda>consumers.
               and_then (no_consumers_rule queue_name messages consumers queue_cooldown) (\<lambda>_.
               ret (queue_name, messages, queue_cooldown)))))))) w)))"

text \<open>The whole body of the loop, for one queue.\<close>

definition check_queue :: "json \<Rightarrow> unit action" where
  "check_queue queue =
     and_then (check_queue_counts queue) (\<lambda>(queue_name, messages, queue_cooldown).
       processing_halt_rule queue queue_name messages queue_cooldown)"

text \<open>\<^verbatim>\<open>check_queue_health\<close>: fetch, return on a falsy answer, else the body on each queue.\<close>

definition check_queue_health :: "unit action" where
  "check_queue_health w =
     (case get_api_data ''queues'' w of
        (queues, w1) \<Rightarrow>
          if \<not> py_bool queues then (Inr (), w1)
          else and_then (lift (py_iter queues)) (for_each check_queue) w1)"


section \<open>The node rules\<close>

text \<open>
  \<^verbatim>\<open>mem_percent = (mem_used / mem_limit) * 100 if mem_limit > 0 else 0\<close>, with
  \<^verbatim>\<open>mem_used\<close> defaulting to 0 and \<^verbatim>\<open>mem_limit\<close> to 1.  The condition is evaluated first, so
  the division is reached with a positive limit only.  The quotient is a \<^verbatim>\<open>float\<close>, and its
  product with 100 is rounded again.
\<close>

definition mem_percent :: "json \<Rightarrow> py_error + real" where
  "mem_percent node =
     (case dict_get node ''mem_used'' (JNum 0) of
        Inl e \<Rightarrow> Inl e
      | Inr mem_used \<Rightarrow>
          (case dict_get node ''mem_limit'' (JNum 1) of
             Inl e \<Rightarrow> Inl e
           | Inr mem_limit \<Rightarrow>
               (case py_gt mem_limit 0 of
                  Inl e \<Rightarrow> Inl e
                | Inr True \<Rightarrow>
                    (case py_truediv mem_used mem_limit of
                       Inl e \<Rightarrow> Inl e
                     | Inr q \<Rightarrow> Inr (round_double (q * 100)))
                | Inr False \<Rightarrow> Inr 0)))"

text \<open>High memory: \<^verbatim>\<open>mem_percent > max_memory_usage_percent\<close>; critical above 90.\<close>

definition memory_rule :: "json \<Rightarrow> json \<Rightarrow> unit action" where
  "memory_rule node node_name w =
     (case mem_percent node of
        Inl e \<Rightarrow> (Inl e, w)
      | Inr pct \<Rightarrow>
          (Inr (),
           if real_of_int (max_memory_usage_percent (thresholds (self w))) < pct
           then alert (alert_key (py_repr w) Memory node_name) None
                  (HighMemoryUsage node_name pct (max_memory_usage_percent (thresholds (self w)))
                     (case dict_get node ''mem_used'' (JNum 0) of Inr u \<Rightarrow> u | Inl _ \<Rightarrow> JNull))
                  (if 90 < pct then ''critical'' else ''warning'') w
           else w))"

text \<open>
  High disk: only with \<^verbatim>\<open>disk_limit > 0 and disk_free > 0\<close>;
  \<^verbatim>\<open>(1 - disk_free / disk_limit) * 100 > max_disk_usage_percent\<close>, each of the three
  operations rounded.
\<close>

definition disk_used_percent :: "json \<Rightarrow> py_error + real option" where
  "disk_used_percent node =
     (case dict_get node ''disk_free'' (JNum 1) of
        Inl e \<Rightarrow> Inl e
      | Inr disk_free \<Rightarrow>
          (case dict_get node ''disk_free_limit'' (JNum 0) of
             Inl e \<Rightarrow> Inl e
           | Inr disk_limit \<Rightarrow>
               (case py_gt disk_limit 0 of
                  Inl e \<Rightarrow> Inl e
                | Inr False \<Rightarrow> Inr None
                | Inr True \<Rightarrow>
                    (case py_gt disk_free 0 of
                       Inl e \<Rightarrow> Inl e
                     | Inr False \<Rightarrow> Inr None
                     | Inr True \<Rightarrow>
                         (case py_truediv disk_free disk_limit of
                            Inl e \<Rightarrow> Inl e
                          | Inr q \<Rightarrow>
                              Inr (Some (round_double (round_double (1 - q) * 100))))))))"

definition disk_rule :: "json \<Rightarrow> json \<Rightarrow> unit action" where
  "disk_rule node node_name w =
     (case disk_used_percent node of
        Inl e \<Rightarrow> (Inl e, w)
      | Inr None \<Rightarrow> (Inr (), w)
      | Inr (Some pct) \<Rightarrow>
          (Inr (),
           if real_of_int (max_disk_usage_percent (thresholds (self w))) < pct
           then alert (alert_key (py_repr w) Disk node_name) None
                  (HighDiskUsage node_name pct (max_disk_usage_percent (thresholds (self w)))
                     (case dict_get node ''disk_free'' (JNum 1) of Inr u \<Rightarrow> u | Inl _ \<Rightarrow> JNull))
                  ''critical'' w
           else w))"

text \<open>Node down: \<^verbatim>\<open>not node.get('running', False)\<close>.\<close>

definition node_down_rule :: "json \<Rightarrow> json \<Rightarrow> unit action" where
  "node_down_rule node node_name w =
     (case dict_get node ''running'' (JBool False) of
        Inl e \<Rightarrow> (Inl e, w)
      | Inr running \<Rightarrow>
          (Inr (),
           if \<not> py_bool running
           then alert (alert_key (py_repr w) NodeDown node_name) None (NodeIsDown node_name)
                  ''critical'' w
           else w))"

definition check_node :: "json \<Rightarrow> unit action" where
  "check_node node =
     and_then (lift (dict_get node ''name'' (JStr ''unknown''))) (\<lambda>node_name.
     and_then (memory_rule node node_name) (\<lambda>_.
     and_then (disk_rule node node_name) (\<lambda>_.
       node_down_rule node node_name)))"

definition check_node_health :: "unit action" where
  "check_node_health w =
     (case get_api_data ''nodes'' w of
        (nodes, w1) \<Rightarrow>
          if \<not> py_bool nodes then (Inr (), w1)
          else and_then (lift (py_iter nodes)) (for_each check_node) w1)"


section \<open>Connectivity, the cycle and the scheduling loop\<close>

definition check_connections :: "unit action" where
  "check_connections w =
     (Inr (),
      if connection_failure_threshold (thresholds (self w)) \<le> connection_failures (self w)
      then alert connection_key None (ApiConnectionFailed (connection_failures (self w)))
             ''critical'' w
      else w)"

text \<open>
  \<^verbatim>\<open>asyncio.gather\<close> of three coroutines, without \<^verbatim>\<open>return_exceptions\<close>: the first exception
  is raised to the caller and the other coroutines are not cancelled.  The model runs the
  three one after the other, each to its end, and answers with the first exception.  The
  event loop may interleave them at their awaits; no statement below depends on the order.
\<close>

definition gather :: "unit action \<Rightarrow> unit action \<Rightarrow> unit action \<Rightarrow> unit action" where
  "gather a b c w =
     (case a w of (ra, wa) \<Rightarrow>
      case b wa of (rb, wb) \<Rightarrow>
      case c wb of (rc, wc) \<Rightarrow>
        (case ra of Inl e \<Rightarrow> Inl e
         | Inr _ \<Rightarrow> (case rb of Inl e \<Rightarrow> Inl e | Inr _ \<Rightarrow> rc),
         wc))"

text \<open>
  One cycle around any body: \<^verbatim>\<open>try: await body ... except Exception as e:\<close> log and send
  the monitoring-error alert.  \<^verbatim>\<open>run_health_check\<close> is the cycle around the three checks.
\<close>

definition run_cycle :: "unit action \<Rightarrow> unit action" where
  "run_cycle body w =
     (case body (say INFO LogRunning w) of
        (Inr _, w1) \<Rightarrow> (Inr (), say INFO LogCompleted w1)
      | (Inl e, w1) \<Rightarrow>
          (Inr (), send_slack_alert (MonitoringError e) ''critical'' (say ERROR (LogCheckError e) w1)))"

definition run_health_check :: "unit action" where
  "run_health_check = run_cycle (gather check_queue_health check_node_health check_connections)"

text \<open>
  \<^verbatim>\<open>start_monitoring\<close>: the startup notification, then \<^verbatim>\<open>while True\<close> a cycle and a sleep.
  The loop never ends; \<open>monitoring_loop\<close> runs its first \<open>n\<close> rounds.  The sleep changes
  nothing the model holds.
\<close>

definition sleep :: "int \<Rightarrow> unit action" where
  "sleep interval = ret ()"

fun monitoring_loop :: "int \<Rightarrow> nat \<Rightarrow> unit action" where
  "monitoring_loop interval 0 = ret ()"
| "monitoring_loop interval (Suc n) =
     and_then run_health_check (\<lambda>_.
     and_then (sleep interval) (\<lambda>_. monitoring_loop interval n))"

definition start_monitoring :: "int \<Rightarrow> nat \<Rightarrow> unit action" where
  "start_monitoring interval n w =
     monitoring_loop interval n
       (send_slack_alert (MonitoringStarted interval) ''info'' (say INFO (LogStarting interval) w))"

section \<open>A concrete monitor and world\<close>

text \<open>
  A monitor as \<^verbatim>\<open>__init__\<close> builds it with a webhook configured and the default values of
  the environment variables, in a world whose clock advances ten minutes between readings,
  whose broker refuses connections and whose webhook accepts every post.
\<close>

definition example_monitor :: monitor where
  "example_monitor = init_monitor (Some ''https://hooks.slack.test/T0'') [] 1000000 10800 1800"

definition example_world :: world where
  "example_world =
     \<lparr> self = example_monitor,
       clock = (\<lambda>n. 1000 + 600 * real n),
       clock_reads = 0,
       http_get = (\<lambda>n. RequestRaised),
       gets = 0,
       http_post = (\<lambda>n. PostStatus 200),
       posts = 0,
       py_repr = (\<lambda>v. ''?''),
       slack_calls = [],
       posted = [],
       logged = [] \<rparr>"

text \<open>
  Two snapshots of queues named \<^verbatim>\<open>orders\<close>, one in the default vhost and one in the vhost
  \<^verbatim>\<open>staging\<close>, each with 2000 messages and one consumer.
\<close>

definition orders_on_default :: json where
  "orders_on_default =
     JObj [(''name'', JStr ''orders''), (''vhost'', JStr ''/''),
           (''messages'', JNum 2000), (''consumers'', JNum 1)]"

definition orders_on_staging :: json where
  "orders_on_staging =
     JObj [(''name'', JStr ''orders''), (''vhost'', JStr ''staging''),
           (''messages'', JNum 2000), (''consumers'', JNum 1)]"


text \<open>
  A queue of the default override list, one message over the global threshold, and a node
  at 85 percent of its memory limit.
\<close>

definition ranges_queue :: json where
  "ranges_queue =
     JObj [(''name'', JStr ''colateral-events-production-location-ranges''), (''vhost'', JStr ''/''),
           (''messages'', JNum 1001), (''consumers'', JNum 1)]"

definition rabbit_node :: json where
  "rabbit_node =
     JObj [(''name'', JStr ''rabbit@a''), (''mem_used'', JNum 850), (''mem_limit'', JNum 1000),
           (''running'', JBool True)]"


text \<open>
  A queue of the override list with a backlog on every count: two million messages, 600
  of them unacknowledged, no consumer, publishing at 5 per second and delivering nothing.
  Two worlds whose clock starts at 20000: in the first the unacknowledged-backlog rule
  alerted for that queue at 15000, in the second at 1000.
\<close>

definition ranges_backlog :: json where
  "ranges_backlog =
     JObj [(''name'', JStr ''colateral-events-production-location-ranges''), (''vhost'', JStr ''/''),
           (''messages'', JNum 2000000), (''messages_unacknowledged'', JNum 600),
           (''consumers'', JNum 0),
           (''message_stats'',
              JObj [(''publish_details'', JObj [(''rate'', JNum 5)]),
                    (''deliver_get_details'', JObj [(''rate'', JNum 0)])])]"

definition recent_alert_world :: world where
  "recent_alert_world =
     example_world
       \<lparr> self := example_monitor
           \<lparr> last_alerts := [''unacked_colateral-events-production-location-ranges'' \<mapsto> 15000] \<rparr>,
         clock := (\<lambda>n. 20000 + 600 * real n) \<rparr>"

definition stale_alert_world :: world where
  "stale_alert_world =
     example_world
       \<lparr> self := example_monitor
           \<lparr> last_alerts := [''unacked_colateral-events-production-location-ranges'' \<mapsto> 1000] \<rparr>,
         clock := (\<lambda>n. 20000 + 600 * real n) \<rparr>"


text \<open>
  Three more nodes: one at 95 percent of its memory limit, one whose memory limit is 0,
  and one whose snapshot has no memory limit and three bytes in use.
\<close>

definition full_node :: json where
  "full_node =
     JObj [(''name'', JStr ''rabbit@b''), (''mem_used'', JNum 950), (''mem_limit'', JNum 1000),
           (''running'', JBool True)]"

definition zero_limit_node :: json where
  "zero_limit_node =
     JObj [(''name'', JStr ''rabbit@c''), (''mem_used'', JNum 850), (''mem_limit'', JNum 0),
           (''running'', JBool True)]"

definition limitless_node :: json where
  "limitless_node =
     JObj [(''name'', JStr ''rabbit@d''), (''mem_used'', JNum 3), (''running'', JBool True)]"


text \<open>
  Two more worlds: one whose broker answers every request with status 500, and one whose
  broker answers with status 200 and the JSON list \<^verbatim>\<open>[5]\<close>, which is no list of snapshots.
\<close>

definition status_500_world :: world where
  "status_500_world = example_world\<lparr>http_get := (\<lambda>n. Response 500 None)\<rparr>"

definition malformed_world :: world where
  "malformed_world = example_world\<lparr>http_get := (\<lambda>n. Response 200 (Some (JArr [JNum 5])))\<rparr>"


text \<open>
  A node at 550000000 of 1000000000 bytes, and a world whose monitor has the memory
  threshold set to 55.
\<close>

definition half_full_node :: json where
  "half_full_node =
     JObj [(''name'', JStr ''rabbit@e''), (''mem_used'', JNum 550000000),
           (''mem_limit'', JNum 1000000000), (''running'', JBool True)]"

definition threshold_55_world :: world where
  "threshold_55_world =
     example_world
       \<lparr> self := example_monitor
           \<lparr> thresholds := default_thresholds \<lparr> max_memory_usage_percent := 55 \<rparr> \<rparr> \<rparr>"


section \<open>Basic facts\<close>

lemma ret_apply: "ret x w = (Inr x, w)"
  by (simp add: ret_def)

lemma tick_fields [simp]:
  "self (tick w) = self w" "clock (tick w) = clock w" "clock_reads (tick w) = Suc (clock_reads w)"
  "http_post (tick w) = http_post w" "posts (tick w) = posts w" "py_repr (tick w) = py_repr w"
  "slack_calls (tick w) = slack_calls w" "posted (tick w) = posted w" "logged (tick w) = logged w"
  "http_get (tick w) = http_get w" "gets (tick w) = gets w"
  by (simp_all add: tick_def)

lemma say_fields [simp]:
  "self (say l e w) = self w" "clock (say l e w) = clock w" "clock_reads (say l e w) = clock_reads w"
  "http_post (say l e w) = http_post w" "posts (say l e w) = posts w" "py_repr (say l e w) = py_repr w"
  "slack_calls (say l e w) = slack_calls w" "posted (say l e w) = posted w"
  "logged (say l e w) = logged w @ [(l, e)]"
  "http_get (say l e w) = http_get w" "gets (say l e w) = gets w"
  by (simp_all add: say_def)

lemma update_self_fields [simp]:
  "self (update_self f w) = f (self w)" "clock (update_self f w) = clock w"
  "clock_reads (update_self f w) = clock_reads w"
  "http_post (update_self f w) = http_post w" "posts (update_self f w) = posts w"
  "py_repr (update_self f w) = py_repr w"
  "slack_calls (update_self f w) = slack_calls w" "posted (update_self f w) = posted w"
  "logged (update_self f w) = logged w"
  "http_get (update_self f w) = http_get w" "gets (update_self f w) = gets w"
  by (simp_all add: update_self_def)

lemma should_send_alert_fst:
  "fst (should_send_alert k cd w) =
     (case last_alerts (self w) k of None \<Rightarrow> True
      | Some t \<Rightarrow> real_of_int (effective_cooldown (self w) cd) \<le> time_now w - t)"
  by (simp add: should_send_alert_def Let_def split: option.splits)

lemma should_send_alert_snd:
  "snd (should_send_alert k cd w) =
     (if fst (should_send_alert k cd w)
      then update_self (\<lambda>m. m\<lparr>last_alerts := (last_alerts m)(k \<mapsto> time_now w)\<rparr>) (tick w)
      else tick w)"
  by (simp add: should_send_alert_def Let_def split: option.splits)

lemma send_slack_alert_fields [simp]:
  "self (send_slack_alert m s w) = self w"
  "clock (send_slack_alert m s w) = clock w"
  "py_repr (send_slack_alert m s w) = py_repr w"
  "http_get (send_slack_alert m s w) = http_get w"
  "gets (send_slack_alert m s w) = gets w"
  "http_post (send_slack_alert m s w) = http_post w"
  "slack_calls (send_slack_alert m s w) = slack_calls w @ [(m, s)]"
  by (simp_all add: send_slack_alert_def Let_def split: post_result.splits)


lemma alert_eq:
  "alert k cd m s w =
     (if fst (should_send_alert k cd w)
      then send_slack_alert m s (snd (should_send_alert k cd w))
      else snd (should_send_alert k cd w))"
  by (cases "should_send_alert k cd w") (auto simp: alert_def)

lemma should_send_alert_env [simp]:
  "clock (snd (should_send_alert k cd w)) = clock w"
  "clock_reads (snd (should_send_alert k cd w)) = Suc (clock_reads w)"
  "py_repr (snd (should_send_alert k cd w)) = py_repr w"
  "http_get (snd (should_send_alert k cd w)) = http_get w"
  "gets (snd (should_send_alert k cd w)) = gets w"
  "http_post (snd (should_send_alert k cd w)) = http_post w"
  "posts (snd (should_send_alert k cd w)) = posts w"
  "slack_calls (snd (should_send_alert k cd w)) = slack_calls w"
  "posted (snd (should_send_alert k cd w)) = posted w"
  "logged (snd (should_send_alert k cd w)) = logged w"
  by (simp_all add: should_send_alert_snd)

lemma should_send_alert_self:
  "self (snd (should_send_alert k cd w)) =
     (if fst (should_send_alert k cd w)
      then (self w)\<lparr>last_alerts := (last_alerts (self w))(k \<mapsto> time_now w)\<rparr>
      else self w)"
  by (simp add: should_send_alert_snd)

lemma alert_env [simp]:
  "clock (alert k cd m s w) = clock w"
  "py_repr (alert k cd m s w) = py_repr w"
  "http_get (alert k cd m s w) = http_get w"
  "gets (alert k cd m s w) = gets w"
  "http_post (alert k cd m s w) = http_post w"
  by (simp_all add: alert_eq)

lemma alert_self:
  "self (alert k cd m s w) = self (snd (should_send_alert k cd w))"
  by (simp add: alert_eq)

lemma alert_slack_calls:
  "slack_calls (alert k cd m s w) =
     slack_calls w @ (if fst (should_send_alert k cd w) then [(m, s)] else [])"
  by (simp add: alert_eq)

lemma alert_suppressed:
  "\<not> fst (should_send_alert k cd w) \<Longrightarrow> alert k cd m s w = tick w"
  by (simp add: alert_eq should_send_alert_snd)

lemma alert_suppressed_run:
  "last_alerts (self w) k = Some t \<Longrightarrow>
   (\<forall>i<n. clock w (clock_reads w + i) - t < real_of_int (effective_cooldown (self w) cd)) \<Longrightarrow>
   (alert k cd m s ^^ n) w = w\<lparr>clock_reads := clock_reads w + n\<rparr>"
proof (induction n arbitrary: w)
  case 0
  then show ?case by simp
next
  case (Suc n)
  from Suc.prems(2) have "clock w (clock_reads w + 0) - t < real_of_int (effective_cooldown (self w) cd)"
    by blast
  with Suc.prems(1) have quiet: "\<not> fst (should_send_alert k cd w)"
    by (simp add: should_send_alert_fst time_now_def)
  have step: "alert k cd m s w = tick w"
    using quiet by (rule alert_suppressed)
  have "(alert k cd m s ^^ n) (tick w) = (tick w)\<lparr>clock_reads := clock_reads (tick w) + n\<rparr>"
  proof (rule Suc.IH)
    show "last_alerts (self (tick w)) k = Some t" using Suc.prems(1) by simp
    show "\<forall>i<n. clock (tick w) (clock_reads (tick w) + i) - t
            < real_of_int (effective_cooldown (self (tick w)) cd)"
    proof (intro allI impI)
      fix i assume "i < n"
      then have "Suc i < Suc n" by simp
      with Suc.prems(2) have "clock w (clock_reads w + Suc i) - t
          < real_of_int (effective_cooldown (self w) cd)" by blast
      then show "clock (tick w) (clock_reads (tick w) + i) - t
          < real_of_int (effective_cooldown (self (tick w)) cd)" by simp
    qed
  qed
  then show ?case
    by (simp add: funpow_swap1 step tick_def)
qed

lemma alert_twice_run:
  assumes fresh: "last_alerts (self w) k = None"
    and within: "\<forall>i<n. clock w (clock_reads (alert k cd m s w) + i) - time_now w
                   < real_of_int (effective_cooldown (self w) cd)"
    and after: "real_of_int (effective_cooldown (self w) cd)
                  \<le> clock w (clock_reads (alert k cd m s w) + n) - time_now w"
  shows "slack_calls (alert k cd m s w) = slack_calls w @ [(m, s)]"
    and "slack_calls ((alert k cd m s ^^ n) (alert k cd m s w)) = slack_calls w @ [(m, s)]"
    and "slack_calls (alert k cd m s ((alert k cd m s ^^ n) (alert k cd m s w)))
           = slack_calls w @ [(m, s), (m, s)]"
proof -
  let ?w1 = "alert k cd m s w"
  from fresh have fires: "fst (should_send_alert k cd w)"
    by (simp add: should_send_alert_fst)
  then show first: "slack_calls ?w1 = slack_calls w @ [(m, s)]"
    by (simp add: alert_slack_calls)
  have rec1: "last_alerts (self ?w1) k = Some (time_now w)"
    using fires by (simp add: alert_self should_send_alert_self)
  have cd1: "effective_cooldown (self ?w1) cd = effective_cooldown (self w) cd"
    by (simp add: alert_self should_send_alert_self effective_cooldown_def split: option.splits)
  have run: "(alert k cd m s ^^ n) ?w1 = ?w1\<lparr>clock_reads := clock_reads ?w1 + n\<rparr>"
    by (rule alert_suppressed_run [OF rec1]) (use within cd1 in simp)
  then show "slack_calls ((alert k cd m s ^^ n) ?w1) = slack_calls w @ [(m, s)]"
    using first by simp
  let ?w2 = "?w1\<lparr>clock_reads := clock_reads ?w1 + n\<rparr>"
  have "fst (should_send_alert k cd ?w2)"
    using rec1 cd1 after by (simp add: should_send_alert_fst time_now_def)
  then have "slack_calls (alert k cd m s ?w2) = slack_calls ?w2 @ [(m, s)]"
    by (simp add: alert_slack_calls)
  then show "slack_calls (alert k cd m s ((alert k cd m s ^^ n) ?w1)) = slack_calls w @ [(m, s), (m, s)]"
    using first run by simp
qed


section \<open>The cooldown check\<close>

text \<open>
  Claim C1.  \<open>should_send_alert\<close> called with a cooldown \<open>c\<close> answers \<open>True\<close> exactly when
  the key has no record or the reading of the clock minus the recorded time is at least
  \<open>c\<close>; called without one it does so with the monitor's default cooldown in the place of
  \<open>c\<close>.  When it answers \<open>True\<close> the reading is the key's new record; otherwise the records
  stay as they are.  Hence, for a rule whose condition stays true and a key without a
  record: the first evaluation notifies; the next \<open>n\<close> evaluations, all reading the clock
  less than the cooldown after that notification, notify nobody; and the evaluation after
  them, reading the clock at least the cooldown after it, notifies again.
\<close>

theorem should_send_alert_cooldown:
  "fst (should_send_alert k (Some c) w) =
      (last_alerts (self w) k = None \<or>
       (\<exists>t. last_alerts (self w) k = Some t \<and> real_of_int c \<le> time_now w - t))
   \<and> fst (should_send_alert k None w) =
      (last_alerts (self w) k = None \<or>
       (\<exists>t. last_alerts (self w) k = Some t \<and>
            real_of_int (default_alert_cooldown (self w)) \<le> time_now w - t))
   \<and> last_alerts (self (snd (should_send_alert k cd w))) =
      (if fst (should_send_alert k cd w) then (last_alerts (self w))(k \<mapsto> time_now w)
       else last_alerts (self w))
   \<and> (last_alerts (self w) k = None \<longrightarrow>
       (\<forall>i<n. clock w (clock_reads (alert k (Some c) m s w) + i) - time_now w
                 < real_of_int c) \<longrightarrow>
       real_of_int c \<le> clock w (clock_reads (alert k (Some c) m s w) + n) - time_now w \<longrightarrow>
       slack_calls (alert k (Some c) m s w) = slack_calls w @ [(m, s)]
       \<and> slack_calls ((alert k (Some c) m s ^^ n) (alert k (Some c) m s w))
           = slack_calls w @ [(m, s)]
       \<and> slack_calls (alert k (Some c) m s ((alert k (Some c) m s ^^ n) (alert k (Some c) m s w)))
           = slack_calls w @ [(m, s), (m, s)])
   \<and> (last_alerts (self w) k = None \<longrightarrow>
       (\<forall>i<n'. clock w (clock_reads (alert k None m s w) + i) - time_now w
                 < real_of_int (default_alert_cooldown (self w))) \<longrightarrow>
       real_of_int (default_alert_cooldown (self w))
          \<le> clock w (clock_reads (alert k None m s w) + n') - time_now w \<longrightarrow>
       slack_calls (alert k None m s w) = slack_calls w @ [(m, s)]
       \<and> slack_calls ((alert k None m s ^^ n') (alert k None m s w)) = slack_calls w @ [(m, s)]
       \<and> slack_calls (alert k None m s ((alert k None m s ^^ n') (alert k None m s w)))
           = slack_calls w @ [(m, s), (m, s)])"
proof (intro conjI impI)
  show "fst (should_send_alert k (Some c) w) =
      (last_alerts (self w) k = None \<or>
       (\<exists>t. last_alerts (self w) k = Some t \<and> real_of_int c \<le> time_now w - t))"
    by (simp add: should_send_alert_fst effective_cooldown_def split: option.splits)
  show "fst (should_send_alert k None w) =
      (last_alerts (self w) k = None \<or>
       (\<exists>t. last_alerts (self w) k = Some t \<and>
            real_of_int (default_alert_cooldown (self w)) \<le> time_now w - t))"
    by (simp add: should_send_alert_fst effective_cooldown_def split: option.splits)
  show "last_alerts (self (snd (should_send_alert k cd w))) =
      (if fst (should_send_alert k cd w) then (last_alerts (self w))(k \<mapsto> time_now w)
       else last_alerts (self w))"
    by (simp add: should_send_alert_self)
next
  assume fresh: "last_alerts (self w) k = None"
    and "\<forall>i<n. clock w (clock_reads (alert k (Some c) m s w) + i) - time_now w < real_of_int c"
    and "real_of_int c \<le> clock w (clock_reads (alert k (Some c) m s w) + n) - time_now w"
  then have within:
      "\<forall>i<n. clock w (clock_reads (alert k (Some c) m s w) + i) - time_now w
          < real_of_int (effective_cooldown (self w) (Some c))"
    and after: "real_of_int (effective_cooldown (self w) (Some c))
          \<le> clock w (clock_reads (alert k (Some c) m s w) + n) - time_now w"
    by (simp_all add: effective_cooldown_def)
  show "slack_calls (alert k (Some c) m s w) = slack_calls w @ [(m, s)]"
    by (rule alert_twice_run(1) [OF fresh within after])
  show "slack_calls ((alert k (Some c) m s ^^ n) (alert k (Some c) m s w))
      = slack_calls w @ [(m, s)]"
    by (rule alert_twice_run(2) [OF fresh within after])
  show "slack_calls (alert k (Some c) m s ((alert k (Some c) m s ^^ n) (alert k (Some c) m s w)))
      = slack_calls w @ [(m, s), (m, s)]"
    by (rule alert_twice_run(3) [OF fresh within after])
next
  assume fresh: "last_alerts (self w) k = None"
    and "\<forall>i<n'. clock w (clock_reads (alert k None m s w) + i) - time_now w
            < real_of_int (default_alert_cooldown (self w))"
    and "real_of_int (default_alert_cooldown (self w))
            \<le> clock w (clock_reads (alert k None m s w) + n') - time_now w"
  then have within:
      "\<forall>i<n'. clock w (clock_reads (alert k None m s w) + i) - time_now w
          < real_of_int (effective_cooldown (self w) None)"
    and after: "real_of_int (effective_cooldown (self w) None)
          \<le> clock w (clock_reads (alert k None m s w) + n') - time_now w"
    by (simp_all add: effective_cooldown_def)
  show "slack_calls (alert k None m s w) = slack_calls w @ [(m, s)]"
    by (rule alert_twice_run(1) [OF fresh within after])
  show "slack_calls ((alert k None m s ^^ n') (alert k None m s w)) = slack_calls w @ [(m, s)]"
    by (rule alert_twice_run(2) [OF fresh within after])
  show "slack_calls (alert k None m s ((alert k None m s ^^ n') (alert k None m s w)))
      = slack_calls w @ [(m, s), (m, s)]"
    by (rule alert_twice_run(3) [OF fresh within after])
qed

theorem should_send_alert_cooldown_witness:
  "last_alerts (self example_world) ''queue_backup_orders'' = None
   \<and> time_now example_world = 1000
   \<and> clock_reads (alert ''queue_backup_orders'' (Some 2000) (NodeIsDown JNull) ''critical''
        example_world) = 2
   \<and> clock example_world 2 = 2200 \<and> clock example_world 3 = 2800
   \<and> clock example_world 4 = 3400
   \<and> default_alert_cooldown (self example_world) = 1800
   \<and> slack_calls (alert ''queue_backup_orders'' (Some 2000) (NodeIsDown JNull) ''critical''
        example_world) = [(NodeIsDown JNull, ''critical'')]
   \<and> slack_calls ((alert ''queue_backup_orders'' (Some 2000) (NodeIsDown JNull) ''critical'' ^^ 2)
        (alert ''queue_backup_orders'' (Some 2000) (NodeIsDown JNull) ''critical'' example_world))
       = [(NodeIsDown JNull, ''critical'')]
   \<and> slack_calls (alert ''queue_backup_orders'' (Some 2000) (NodeIsDown JNull) ''critical''
        ((alert ''queue_backup_orders'' (Some 2000) (NodeIsDown JNull) ''critical'' ^^ 2)
          (alert ''queue_backup_orders'' (Some 2000) (NodeIsDown JNull) ''critical'' example_world)))
       = [(NodeIsDown JNull, ''critical''), (NodeIsDown JNull, ''critical'')]
   \<and> slack_calls ((alert ''queue_backup_orders'' None (NodeIsDown JNull) ''critical'' ^^ 1)
        (alert ''queue_backup_orders'' None (NodeIsDown JNull) ''critical'' example_world))
       = [(NodeIsDown JNull, ''critical'')]
   \<and> slack_calls (alert ''queue_backup_orders'' None (NodeIsDown JNull) ''critical''
        ((alert ''queue_backup_orders'' None (NodeIsDown JNull) ''critical'' ^^ 1)
          (alert ''queue_backup_orders'' None (NodeIsDown JNull) ''critical'' example_world)))
       = [(NodeIsDown JNull, ''critical''), (NodeIsDown JNull, ''critical'')]
   \<and> last_alerts (self recent_alert_world)
        ''unacked_colateral-events-production-location-ranges'' = Some 15000
   \<and> time_now recent_alert_world = 20000
   \<and> fst (should_send_alert ''unacked_colateral-events-production-location-ranges'' (Some 5000)
        recent_alert_world)
   \<and> \<not> fst (should_send_alert ''unacked_colateral-events-production-location-ranges'' (Some 5001)
        recent_alert_world)
   \<and> fst (should_send_alert ''unacked_colateral-events-production-location-ranges'' None
        recent_alert_world)"
proof -
  note run = should_send_alert_cooldown [of "''queue_backup_orders''" 2000 example_world
      "Some 2000" 2 "NodeIsDown JNull" "''critical''" 1]
  note chk = should_send_alert_cooldown
      [of "''unacked_colateral-events-production-location-ranges''" _ recent_alert_world None 0
        "NodeIsDown JNull" "''critical''" 0]
  have reads: "clock_reads (alert k cd m s example_world) = 2" for k cd m s
    by (simp add: example_world_def example_monitor_def init_monitor_def alert_eq
        should_send_alert_def send_slack_alert_def time_now_def tick_def say_def update_self_def
        Let_def)
  have less2: "(\<forall>i<2. P i) = (P 0 \<and> P (Suc 0))" for P :: "nat \<Rightarrow> bool"
    by (auto simp add: numeral_2_eq_2 less_Suc_eq)
  have base: "last_alerts (self example_world) ''queue_backup_orders'' = None"
      "time_now example_world = 1000"
      "clock example_world = (\<lambda>n. 1000 + 600 * real n)"
      "default_alert_cooldown (self example_world) = 1800"
      "slack_calls example_world = []"
    by (simp_all add: example_world_def example_monitor_def init_monitor_def time_now_def)
  have recent: "last_alerts (self recent_alert_world)
        ''unacked_colateral-events-production-location-ranges'' = Some 15000"
      "time_now recent_alert_world = 20000"
      "default_alert_cooldown (self recent_alert_world) = 1800"
    by (simp_all add: recent_alert_world_def example_world_def example_monitor_def
        init_monitor_def time_now_def)
  show ?thesis
    using run chk [of 5000] chk [of 5001]
    by (simp add: reads less2 base recent)
qed

text \<open>
  Claim C5.  Only a check that answers \<open>True\<close> writes to the monitor: a check that answers
  \<open>False\<close> leaves the whole monitor, and so the map of last alerts, as it was; a check on
  key \<open>k\<close> leaves the record of every other key as it was; \<open>send_slack_alert\<close> leaves the
  monitor as it was, whatever becomes of the delivery; and the map after an alert is the
  map after its check, the same for every webhook configuration and every outcome of the
  posts.
\<close>

theorem cooldown_state_frame:
  "(\<not> fst (should_send_alert k cd w) \<longrightarrow> self (snd (should_send_alert k cd w)) = self w)
   \<and> (\<forall>k'. k' \<noteq> k \<longrightarrow>
         last_alerts (self (snd (should_send_alert k cd w))) k' = last_alerts (self w) k')
   \<and> self (send_slack_alert m s w) = self w
   \<and> last_alerts (self (alert k cd m s w)) = last_alerts (self (snd (should_send_alert k cd w)))
   \<and> last_alerts (self (alert k cd m s
         (w\<lparr>self := (self w)\<lparr>slack_webhook_url := url\<rparr>, http_post := outcomes\<rparr>)))
       = last_alerts (self (alert k cd m s w))"
  by (simp add: should_send_alert_self alert_self should_send_alert_fst time_now_def
        effective_cooldown_def split: option.splits)

theorem cooldown_state_frame_witness:
  "\<not> fst (should_send_alert ''k'' (Some 1800)
        (example_world\<lparr>self := example_monitor\<lparr>last_alerts := [''k'' \<mapsto> 900, ''j'' \<mapsto> 5]\<rparr>\<rparr>))
   \<and> self (snd (should_send_alert ''k'' (Some 1800)
        (example_world\<lparr>self := example_monitor\<lparr>last_alerts := [''k'' \<mapsto> 900, ''j'' \<mapsto> 5]\<rparr>\<rparr>)))
       = example_monitor\<lparr>last_alerts := [''k'' \<mapsto> 900, ''j'' \<mapsto> 5]\<rparr>
   \<and> ''j'' \<noteq> ''k''
   \<and> last_alerts (self (snd (should_send_alert ''k'' (Some 50)
        (example_world\<lparr>self := example_monitor\<lparr>last_alerts := [''k'' \<mapsto> 900, ''j'' \<mapsto> 5]\<rparr>\<rparr>)))) ''j''
       = Some 5"
  using cooldown_state_frame [of "''k''" "Some 1800"
      "example_world\<lparr>self := example_monitor\<lparr>last_alerts := [''k'' \<mapsto> 900, ''j'' \<mapsto> 5]\<rparr>\<rparr>"]
    cooldown_state_frame [of "''k''" "Some 50"
      "example_world\<lparr>self := example_monitor\<lparr>last_alerts := [''k'' \<mapsto> 900, ''j'' \<mapsto> 5]\<rparr>\<rparr>"]
  by (simp add: example_world_def example_monitor_def init_monitor_def
        should_send_alert_def time_now_def tick_def update_self_def
        effective_cooldown_def Let_def)

section \<open>Alert keys, and what a check leaves as it was\<close>

lemma key_prefix_disjoint:
  "r \<noteq> r' \<Longrightarrow> key_prefix r @ x \<noteq> key_prefix r' @ y"
  by (cases r; cases r'; simp add: key_prefix_def)

lemma key_prefix_not_connection: "key_prefix r @ x \<noteq> connection_key"
  by (cases r; simp add: key_prefix_def connection_key_def)

lemma alert_key_eq_iff:
  "(alert_key repr r n = alert_key repr' r' n') = (r = r' \<and> py_str repr n = py_str repr' n')"
  using key_prefix_disjoint [of r r' "py_str repr n" "py_str repr' n'"]
  by (auto simp: alert_key_def)

lemma and_then_preserves:
  assumes "\<And>w. P w \<Longrightarrow> P (snd (m w))"
    and "\<And>x w. P w \<Longrightarrow> P (snd (f x w))"
    and "P w"
  shows "P (snd (and_then m f w))"
proof (cases "m w")
  case (Pair r w')
  with assms(1) [OF assms(3)] have "P w'" by simp
  with Pair assms(2) show ?thesis
    by (cases r) (simp_all add: and_then_def)
qed

lemma lift_snd [simp]: "snd (lift r w) = w"
  by (simp add: lift_def)

lemma ret_snd [simp]: "snd (ret x w) = w"
  by (simp add: ret_def)

lemma for_each_preserves:
  assumes "\<And>x w. P w \<Longrightarrow> P (snd (f x w))"
  shows "P w \<Longrightarrow> P (snd (for_each f xs w))"
proof (induction xs arbitrary: w)
  case Nil
  then show ?case by simp
next
  case (Cons x xs)
  show ?case
    unfolding for_each.simps
    by (rule and_then_preserves [where P = P]) (use assms Cons in auto)
qed

lemma rule_of_simps [simp]:
  "rule_of (QueueBackupDetected a b c d) = Some QueueBackup"
  "rule_of (HighUnacknowledged a b c') = Some Unacked"
  "rule_of (MissingConsumers a b e c') = Some NoConsumers"
  "rule_of (ProcessingHalted a b e d) = Some ProcessingHalt"
  "rule_of (HighMemoryUsage a x c d) = Some Memory"
  "rule_of (HighDiskUsage a x c d) = Some Disk"
  "rule_of (NodeIsDown a) = Some NodeDown"
  "rule_of (ApiConnectionFailed c) = None"
  "rule_of (MonitoringError err) = None"
  "rule_of (MonitoringStarted c) = None"
  by (simp_all add: rule_of_def)


lemma queue_backup_rule_preserves:
  assumes "\<And>m s. rule_of m = Some QueueBackup \<Longrightarrow>
             P (alert (alert_key (py_repr w) QueueBackup n) (Some cd) m s w)"
    and "P w"
  shows "P (snd (queue_backup_rule n v ms T cd w))"
  using assms by (auto simp: queue_backup_rule_def split: sum.splits)

lemma unacked_rule_preserves:
  assumes "\<And>m s. rule_of m = Some Unacked \<Longrightarrow>
             P (alert (alert_key (py_repr w) Unacked n) (Some cd) m s w)"
    and "P w"
  shows "P (snd (unacked_rule n u cd w))"
  using assms by (auto simp: unacked_rule_def split: sum.splits)

lemma no_consumers_rule_preserves:
  assumes "\<And>m s. rule_of m = Some NoConsumers \<Longrightarrow>
             P (alert (alert_key (py_repr w) NoConsumers n) (Some cd) m s w)"
    and "P w"
  shows "P (snd (no_consumers_rule n ms c cd w))"
  using assms by (auto simp: no_consumers_rule_def split: sum.splits)

lemma processing_halt_rule_preserves:
  assumes "\<And>m s. rule_of m = Some ProcessingHalt \<Longrightarrow>
             P (alert (alert_key (py_repr w) ProcessingHalt n) (Some cd) m s w)"
    and "P w"
  shows "P (snd (processing_halt_rule q n ms cd w))"
  using assms
  by (auto simp: processing_halt_rule_def and_then_def lift_def split: sum.splits)


lemma dict_get_total: "dict_get q k d = Inr v \<Longrightarrow> \<exists>v'. dict_get q k' d' = Inr v'"
  by (cases q) (simp_all add: dict_get_def)

lemma check_queue_not_dict:
  "dict_get queue ''name'' (JStr ''unknown'') = Inl e \<Longrightarrow> check_queue queue w = (Inl e, w)"
  by (simp add: check_queue_def check_queue_counts_def and_then_def lift_def)

lemma check_queue_chain:
  assumes "dict_get queue ''name'' (JStr ''unknown'') = Inr name"
    and "dict_get queue ''vhost'' (JStr ''/'') = Inr vhost"
    and "dict_get queue ''messages'' (JNum 0) = Inr messages"
    and "dict_get queue ''messages_unacknowledged'' (JNum 0) = Inr unacked"
    and "dict_get queue ''consumers'' (JNum 0) = Inr consumers"
    and "get_queue_config (self w) name = (T, cd)"
  shows "check_queue queue w =
     and_then (queue_backup_rule name vhost messages T cd) (\<lambda>_.
     and_then (unacked_rule name unacked cd) (\<lambda>_.
     and_then (no_consumers_rule name messages consumers cd) (\<lambda>_.
       processing_halt_rule queue name messages cd))) w"
  using assms
  by (simp add: check_queue_def check_queue_counts_def and_then_def lift_def ret_def
        split: sum.splits prod.splits)

lemma check_queue_preserves:
  assumes step: "\<And>r m s w. P w \<Longrightarrow> py_repr w = repr \<Longrightarrow> rule_of m = Some r \<Longrightarrow>
        r \<in> {QueueBackup, Unacked, NoConsumers, ProcessingHalt} \<Longrightarrow>
        P (alert (alert_key repr r name) (Some cd) m s w) "
    and name: "dict_get queue ''name'' (JStr ''unknown'') = Inr name"
    and cd: "snd (get_queue_config (self w) name) = cd"
    and repr: "py_repr w = repr"
    and "P w"
  shows "P (snd (check_queue queue w)) \<and> py_repr (snd (check_queue queue w)) = repr"
proof -
  let ?I = "\<lambda>w. P w \<and> py_repr w = repr"
  have I0: "?I w" using assms by simp
  have istep: "?I (alert (alert_key (py_repr w) r name) (Some cd) m s w)"
    if "?I w" "rule_of m = Some r" "r \<in> {QueueBackup, Unacked, NoConsumers, ProcessingHalt}"
    for r m s w
    using step [of w m r s] that by simp
  obtain T where cfg: "get_queue_config (self w) name = (T, cd)"
    using cd by (cases "get_queue_config (self w) name") simp
  obtain vhost messages unacked consumers where gets:
    "dict_get queue ''vhost'' (JStr ''/'') = Inr vhost"
    "dict_get queue ''messages'' (JNum 0) = Inr messages"
    "dict_get queue ''messages_unacknowledged'' (JNum 0) = Inr unacked"
    "dict_get queue ''consumers'' (JNum 0) = Inr consumers"
    using dict_get_total [OF name] by metis
  have halt: "?I (snd (processing_halt_rule queue name ms cd w'))" if "?I w'" for ms w'
    by (rule processing_halt_rule_preserves [where P = ?I]) (use that istep in auto)
  have cons: "?I (snd (no_consumers_rule name ms c cd w'))" if "?I w'" for ms c w'
    by (rule no_consumers_rule_preserves [where P = ?I]) (use that istep in auto)
  have unack: "?I (snd (unacked_rule name u cd w'))" if "?I w'" for u w'
    by (rule unacked_rule_preserves [where P = ?I]) (use that istep in auto)
  have backup: "?I (snd (queue_backup_rule name v ms T' cd w'))" if "?I w'" for v ms T' w'
    by (rule queue_backup_rule_preserves [where P = ?I]) (use that istep in auto)
  have "?I (snd (check_queue queue w))"
    unfolding check_queue_chain [OF name gets cfg]
    by (intro and_then_preserves [where P = ?I] backup unack cons halt I0)
  then show ?thesis by simp
qed


lemma memory_rule_preserves:
  assumes "\<And>m s. rule_of m = Some Memory \<Longrightarrow>
             P (alert (alert_key (py_repr w) Memory n) None m s w)"
    and "P w"
  shows "P (snd (memory_rule node n w))"
  using assms by (auto simp: memory_rule_def split: sum.splits)

lemma disk_rule_preserves:
  assumes "\<And>m s. rule_of m = Some Disk \<Longrightarrow>
             P (alert (alert_key (py_repr w) Disk n) None m s w)"
    and "P w"
  shows "P (snd (disk_rule node n w))"
  using assms by (auto simp: disk_rule_def split: sum.splits option.splits)

lemma node_down_rule_preserves:
  assumes "\<And>m s. rule_of m = Some NodeDown \<Longrightarrow>
             P (alert (alert_key (py_repr w) NodeDown n) None m s w)"
    and "P w"
  shows "P (snd (node_down_rule node n w))"
  using assms by (auto simp: node_down_rule_def split: sum.splits)

lemma check_node_not_dict:
  "dict_get node ''name'' (JStr ''unknown'') = Inl e \<Longrightarrow> check_node node w = (Inl e, w)"
  by (simp add: check_node_def and_then_def lift_def)

lemma check_node_chain:
  assumes "dict_get node ''name'' (JStr ''unknown'') = Inr name"
  shows "check_node node w =
     and_then (memory_rule node name) (\<lambda>_.
     and_then (disk_rule node name) (\<lambda>_. node_down_rule node name)) w"
  using assms by (simp add: check_node_def and_then_def lift_def)

lemma check_node_preserves:
  assumes step: "\<And>r m s w. P w \<Longrightarrow> py_repr w = repr \<Longrightarrow> rule_of m = Some r \<Longrightarrow>
        r \<in> {Memory, Disk, NodeDown} \<Longrightarrow>
        P (alert (alert_key repr r name) None m s w) "
    and name: "dict_get node ''name'' (JStr ''unknown'') = Inr name"
    and repr: "py_repr w = repr"
    and "P w"
  shows "P (snd (check_node node w)) \<and> py_repr (snd (check_node node w)) = repr"
proof -
  let ?I = "\<lambda>w. P w \<and> py_repr w = repr"
  have I0: "?I w" using assms by simp
  have istep: "?I (alert (alert_key (py_repr w) r name) None m s w)"
    if "?I w" "rule_of m = Some r" "r \<in> {Memory, Disk, NodeDown}"
    for r m s w
    using step [of w m r s] that by simp
  have mem: "?I (snd (memory_rule node name w'))" if "?I w'" for w'
    by (rule memory_rule_preserves [where P = ?I]) (use that istep in auto)
  have disk: "?I (snd (disk_rule node name w'))" if "?I w'" for w'
    by (rule disk_rule_preserves [where P = ?I]) (use that istep in auto)
  have down: "?I (snd (node_down_rule node name w'))" if "?I w'" for w'
    by (rule node_down_rule_preserves [where P = ?I]) (use that istep in auto)
  have "?I (snd (check_node node w))"
    unfolding check_node_chain [OF name]
    by (intro and_then_preserves [where P = ?I] mem disk down I0)
  then show ?thesis by simp
qed

lemma alert_dom:
  "dom (last_alerts (self (alert k cd m s w))) \<subseteq> insert k (dom (last_alerts (self w)))"
  by (auto simp: alert_self should_send_alert_self split: if_splits)


text \<open>
  Claim C2, as amended.  The key is made from the rule and the name of the entity alone:
  for names that are strings, two keys are equal exactly when rule and name are equal,
  whatever the cycle, and no key of a queue or node rule is the key of the connectivity
  rule.  The keys under which the checks of one queue (one node) write a record are the
  keys of the four queue rules (three node rules) for the name of that snapshot; its vhost
  takes no part.
\<close>

theorem alert_key_by_rule_and_name:
  "(alert_key repr r (JStr a) = alert_key repr' r' (JStr b)) = (r = r' \<and> a = b)
   \<and> alert_key repr r n \<noteq> connection_key
   \<and> (dict_get queue ''name'' (JStr ''unknown'') = Inr name \<longrightarrow>
        dom (last_alerts (self (snd (check_queue queue w))))
          \<subseteq> dom (last_alerts (self w))
              \<union> (\<lambda>r. alert_key (py_repr w) r name) ` {QueueBackup, Unacked, NoConsumers, ProcessingHalt})
   \<and> (dict_get node ''name'' (JStr ''unknown'') = Inr name' \<longrightarrow>
        dom (last_alerts (self (snd (check_node node w))))
          \<subseteq> dom (last_alerts (self w))
              \<union> (\<lambda>r. alert_key (py_repr w) r name') ` {Memory, Disk, NodeDown})"
proof (intro conjI impI)
  show "(alert_key repr r (JStr a) = alert_key repr' r' (JStr b)) = (r = r' \<and> a = b)"
    by (simp add: alert_key_eq_iff py_str_def)
  show "alert_key repr r n \<noteq> connection_key"
    by (simp add: alert_key_def key_prefix_not_connection)
next
  let ?K = "(\<lambda>r. alert_key (py_repr w) r name) ` {QueueBackup, Unacked, NoConsumers, ProcessingHalt}"
  let ?P = "\<lambda>v::world. dom (last_alerts (self v)) \<subseteq> dom (last_alerts (self w)) \<union> ?K"
  assume name: "dict_get queue ''name'' (JStr ''unknown'') = Inr name"
  have "?P (snd (check_queue queue w)) \<and> py_repr (snd (check_queue queue w)) = py_repr w"
  proof (rule check_queue_preserves [where P = ?P, OF _ name refl refl])
    fix r m s v
    assume "?P v" and "r \<in> {QueueBackup, Unacked, NoConsumers, ProcessingHalt}"
    then show "?P (alert (alert_key (py_repr w) r name)
        (Some (snd (get_queue_config (self w) name))) m s v)"
      using alert_dom [of "alert_key (py_repr w) r name"
          "Some (snd (get_queue_config (self w) name))" m s v]
      by blast
  qed auto
  then show "?P (snd (check_queue queue w))" by simp
next
  let ?K = "(\<lambda>r. alert_key (py_repr w) r name') ` {Memory, Disk, NodeDown}"
  let ?P = "\<lambda>v::world. dom (last_alerts (self v)) \<subseteq> dom (last_alerts (self w)) \<union> ?K"
  assume name: "dict_get node ''name'' (JStr ''unknown'') = Inr name'"
  have "?P (snd (check_node node w)) \<and> py_repr (snd (check_node node w)) = py_repr w"
  proof (rule check_node_preserves [where P = ?P, OF _ name refl])
    fix r m s v
    assume "?P v" and "r \<in> {Memory, Disk, NodeDown}"
    then show "?P (alert (alert_key (py_repr w) r name') None m s v)"
      using alert_dom [of "alert_key (py_repr w) r name'" None m s v]
      by blast
  qed auto
  then show "?P (snd (check_node node w))" by simp
qed


theorem alert_key_by_rule_and_name_witness:
  "dict_get orders_on_default ''name'' (JStr ''unknown'') = Inr (JStr ''orders'')
   \<and> dict_get rabbit_node ''name'' (JStr ''unknown'') = Inr (JStr ''rabbit@a'')
   \<and> alert_key (py_repr example_world) QueueBackup (JStr ''orders'')
       \<noteq> alert_key (py_repr example_world) Unacked (JStr ''orders'')
   \<and> dom (last_alerts (self (snd (check_queue orders_on_default example_world))))
       \<subseteq> {''queue_backup_orders'', ''unacked_orders'', ''no_consumers_orders'',
            ''processing_halt_orders''}
   \<and> dom (last_alerts (self (snd (check_node rabbit_node example_world))))
       \<subseteq> {''memory_rabbit@a'', ''disk_rabbit@a'', ''node_down_rabbit@a''}"
  using alert_key_by_rule_and_name [of "py_repr example_world" QueueBackup "''orders''"
      "py_repr example_world" Unacked "''orders''" "JStr ''orders''" orders_on_default
      "JStr ''orders''" example_world rabbit_node "JStr ''rabbit@a''"]
  by (simp add: orders_on_default_def rabbit_node_def dict_get_def example_world_def
        example_monitor_def init_monitor_def alert_key_def key_prefix_def py_str_def)

lemmas eval_defs =
  check_queue_def check_queue_counts_def and_then_def lift_def ret_def
  dict_get_def get_queue_config_def queue_backup_rule_def unacked_rule_def
  no_consumers_rule_def no_consumers_condition_def processing_halt_rule_def rate_of_def
  processing_halt_condition_def py_gt_def py_lt_def py_eq_def num_of_def
  example_world_def example_monitor_def init_monitor_def
  default_thresholds_def alert_eq should_send_alert_def send_slack_alert_def
  time_now_def tick_def say_def update_self_def effective_cooldown_def alert_key_def
  key_prefix_def py_str_def Let_def color_of_def


text \<open>
  Claim C2 as stated fails: two queues of the same name in different vhosts share the key
  of the queue-backup rule, and in one pass over both only the first is notified.
\<close>

theorem alert_key_vhost_counterexample:
  "dict_get orders_on_default ''name'' (JStr ''unknown'')
     = dict_get orders_on_staging ''name'' (JStr ''unknown'')
   \<and> dict_get orders_on_default ''vhost'' (JStr ''/'')
     \<noteq> dict_get orders_on_staging ''vhost'' (JStr ''/'')
   \<and> dom (last_alerts (self (snd (check_queue orders_on_default example_world))))
       = {''queue_backup_orders''}
   \<and> dom (last_alerts (self (snd (check_queue orders_on_staging example_world))))
       = {''queue_backup_orders''}
   \<and> slack_calls (snd (for_each check_queue [orders_on_default, orders_on_staging] example_world))
       = [(QueueBackupDetected (JStr ''orders'') (JNum 2000) 1000 (JStr ''/''), ''critical'')]"
  by (simp add: eval_defs orders_on_default_def orders_on_staging_def)

section \<open>The queue rules and the per-queue configuration\<close>

lemma send_slack_alert_clock_reads:
  "clock_reads w \<le> clock_reads (send_slack_alert m s w)
   \<and> clock_reads (send_slack_alert m s w) \<le> Suc (clock_reads w)"
  by (simp add: send_slack_alert_def Let_def split: post_result.splits)

lemma alert_clock_reads:
  "clock_reads w < clock_reads (alert k cd m s w)
   \<and> clock_reads (alert k cd m s w) \<le> clock_reads w + 2"
  using send_slack_alert_clock_reads [of "snd (should_send_alert k cd w)" m s]
  by (simp add: alert_eq)

lemma alert_config [simp]:
  "thresholds (self (alert k cd m s w)) = thresholds (self w)"
  "long_job_queues (self (alert k cd m s w)) = long_job_queues (self w)"
  "long_job_threshold (self (alert k cd m s w)) = long_job_threshold (self w)"
  "long_job_cooldown (self (alert k cd m s w)) = long_job_cooldown (self w)"
  "default_alert_cooldown (self (alert k cd m s w)) = default_alert_cooldown (self w)"
  "slack_webhook_url (self (alert k cd m s w)) = slack_webhook_url (self w)"
  "connection_failures (self (alert k cd m s w)) = connection_failures (self w)"
  by (simp_all add: alert_self should_send_alert_self)

lemma alert_last_other:
  "k' \<noteq> k \<Longrightarrow> last_alerts (self (alert k cd m s w)) k' = last_alerts (self w) k'"
  by (simp add: alert_self should_send_alert_self)

lemma alert_last_own:
  "last_alerts (self (alert k cd m s w)) k =
     (if fst (should_send_alert k cd w) then Some (time_now w) else last_alerts (self w) k)"
  by (simp add: alert_self should_send_alert_self)

lemma alert_calls_other:
  "rule_of m \<noteq> Some r \<Longrightarrow> calls_of r (alert k cd m s w) = calls_of r w"
  by (simp add: calls_of_def alert_slack_calls)

lemma alert_calls_own:
  "rule_of m = Some r \<Longrightarrow>
   calls_of r (alert k cd m s w) =
     calls_of r w @ (if fst (should_send_alert k cd w) then [(m, s)] else [])"
  by (simp add: calls_of_def alert_slack_calls)

lemma and_then_post:
  assumes "P w"
    and "\<And>v. P v \<Longrightarrow> P' (snd (m v))"
    and "\<And>v. P' v \<Longrightarrow> Q v"
    and "\<And>x v. P' v \<Longrightarrow> Q (snd (f x v))"
  shows "Q (snd (and_then m f w))"
proof (cases "m w")
  case (Pair r w')
  with assms(2) [OF assms(1)] have "P' w'" by simp
  with Pair assms(3,4) show ?thesis
    by (cases r) (simp_all add: and_then_def)
qed

lemma get_queue_config_cases:
  "get_queue_config m name =
     (if name \<in> JStr ` set (long_job_queues m)
      then (long_job_threshold m, long_job_cooldown m)
      else (max_queue_length (thresholds m), default_alert_cooldown m))"
  by (simp add: get_queue_config_def)

text \<open>The rules after the first leave the record and the calls of the queue-backup rule alone.\<close>

lemma queue_rules_after_backup:
  fixes w :: world
  assumes P: "last_alerts (self w) (alert_key (py_repr w) QueueBackup name) = x"
             "calls_of QueueBackup w = cs"
  shows "last_alerts (self (snd (and_then (unacked_rule name unacked cd) (\<lambda>_.
            and_then (no_consumers_rule name messages consumers cd) (\<lambda>_.
              processing_halt_rule queue name messages cd)) w)))
           (alert_key (py_repr w) QueueBackup name) = x
       \<and> calls_of QueueBackup (snd (and_then (unacked_rule name unacked cd) (\<lambda>_.
            and_then (no_consumers_rule name messages consumers cd) (\<lambda>_.
              processing_halt_rule queue name messages cd)) w)) = cs"
proof -
  let ?k = "alert_key (py_repr w) QueueBackup name"
  let ?I = "\<lambda>v::world. py_repr v = py_repr w \<and> last_alerts (self v) ?k = x
              \<and> calls_of QueueBackup v = cs"
  have I0: "?I w" using P by simp
  have istep: "?I (alert (alert_key (py_repr v) r name) c m s v)"
    if "?I v" "rule_of m = Some r" "r \<noteq> QueueBackup" for r m s v c
    using that by (simp add: alert_last_other alert_calls_other alert_key_eq_iff)
  have halt: "?I (snd (processing_halt_rule queue name ms cd v))" if "?I v" for ms v
    by (rule processing_halt_rule_preserves [where P = ?I]) (use that istep in auto)
  have cons: "?I (snd (no_consumers_rule name ms c cd v))" if "?I v" for ms c v
    by (rule no_consumers_rule_preserves [where P = ?I]) (use that istep in auto)
  have unack: "?I (snd (unacked_rule name u cd v))" if "?I v" for u v
    by (rule unacked_rule_preserves [where P = ?I]) (use that istep in auto)
  have "?I (snd (and_then (unacked_rule name unacked cd) (\<lambda>_.
            and_then (no_consumers_rule name messages consumers cd) (\<lambda>_.
              processing_halt_rule queue name messages cd)) w))"
    by (intro and_then_preserves [where P = ?I] unack cons halt I0)
  then show ?thesis by simp
qed


text \<open>
  Claim C4.  \<open>get_queue_config\<close> gives the override threshold with the override cooldown
  for a queue of the override list, and the global threshold with the default cooldown for
  any other queue.  The queue-backup rule of \<open>check_queue\<close> uses both members of that one
  pair: for a queue with a numeric depth \<open>m\<close>, it calls \<^verbatim>\<open>send_slack_alert\<close> and records
  the reading of the clock exactly when \<open>m\<close> is above the threshold of the pair and the key
  has no record or one at least the cooldown of the pair old.
\<close>

theorem queue_backup_config_pair:
  assumes name: "dict_get queue ''name'' (JStr ''unknown'') = Inr name"
    and vhost: "dict_get queue ''vhost'' (JStr ''/'') = Inr vhost"
    and messages: "dict_get queue ''messages'' (JNum 0) = Inr messages"
    and m: "num_of messages = Some m"
  shows "get_queue_config (self w) name =
           (if name \<in> JStr ` set (long_job_queues (self w))
            then (long_job_threshold (self w), long_job_cooldown (self w))
            else (max_queue_length (thresholds (self w)), default_alert_cooldown (self w)))
       \<and> calls_of QueueBackup (snd (check_queue queue w)) =
           calls_of QueueBackup w @
           (if real_of_int (fst (get_queue_config (self w) name)) < m
               \<and> (case last_alerts (self w) (alert_key (py_repr w) QueueBackup name) of
                    None \<Rightarrow> True
                  | Some t \<Rightarrow> real_of_int (snd (get_queue_config (self w) name)) \<le> time_now w - t)
            then [(QueueBackupDetected name messages (fst (get_queue_config (self w) name)) vhost,
                   ''critical'')]
            else [])
       \<and> last_alerts (self (snd (check_queue queue w))) (alert_key (py_repr w) QueueBackup name) =
           (if real_of_int (fst (get_queue_config (self w) name)) < m
               \<and> (case last_alerts (self w) (alert_key (py_repr w) QueueBackup name) of
                    None \<Rightarrow> True
                  | Some t \<Rightarrow> real_of_int (snd (get_queue_config (self w) name)) \<le> time_now w - t)
            then Some (time_now w)
            else last_alerts (self w) (alert_key (py_repr w) QueueBackup name))"
proof -
  obtain T cd where cfg: "get_queue_config (self w) name = (T, cd)"
    by (cases "get_queue_config (self w) name")
  obtain unacked consumers where gets:
    "dict_get queue ''messages_unacknowledged'' (JNum 0) = Inr unacked"
    "dict_get queue ''consumers'' (JNum 0) = Inr consumers"
    using dict_get_total [OF name] by metis
  let ?k = "alert_key (py_repr w) QueueBackup name"
  let ?msg = "QueueBackupDetected name messages T vhost"
  let ?w1 = "if real_of_int T < m then alert ?k (Some cd) ?msg ''critical'' w else w"
  let ?rest = "and_then (unacked_rule name unacked cd) (\<lambda>_.
            and_then (no_consumers_rule name messages consumers cd) (\<lambda>_.
              processing_halt_rule queue name messages cd))"
  have first: "queue_backup_rule name vhost messages T cd w = (Inr (), ?w1)"
    using m by (simp add: queue_backup_rule_def py_gt_def)
  have chain: "check_queue queue w = ?rest ?w1"
    unfolding check_queue_chain [OF name vhost messages gets cfg]
    by (simp add: and_then_def first)
  have repr1: "py_repr ?w1 = py_repr w" by simp
  have rest: "last_alerts (self (snd (?rest ?w1))) ?k = last_alerts (self ?w1) ?k
       \<and> calls_of QueueBackup (snd (?rest ?w1)) = calls_of QueueBackup ?w1"
    using queue_rules_after_backup [of ?w1 name "last_alerts (self ?w1) ?k"
        "calls_of QueueBackup ?w1" unacked cd messages consumers queue]
    unfolding repr1 by blast
  show ?thesis
    unfolding chain
    using rest
    by (simp add: cfg get_queue_config_cases [symmetric] alert_last_own alert_calls_own
        should_send_alert_fst effective_cooldown_def split: option.splits)
qed


theorem queue_backup_config_pair_witness:
  "dict_get ranges_queue ''name'' (JStr ''unknown'')
     = Inr (JStr ''colateral-events-production-location-ranges'')
   \<and> dict_get ranges_queue ''messages'' (JNum 0) = Inr (JNum 1001)
   \<and> num_of (JNum 1001) = Some 1001
   \<and> get_queue_config (self example_world) (JStr ''colateral-events-production-location-ranges'')
       = (1000000, 10800)
   \<and> calls_of QueueBackup (snd (check_queue ranges_queue example_world)) = []
   \<and> get_queue_config (self example_world) (JStr ''orders'') = (1000, 1800)
   \<and> calls_of QueueBackup (snd (check_queue orders_on_default example_world))
       = [(QueueBackupDetected (JStr ''orders'') (JNum 2000) 1000 (JStr ''/''), ''critical'')]"
  using queue_backup_config_pair [of ranges_queue
      "JStr ''colateral-events-production-location-ranges''" "JStr ''/''" "JNum 1001" 1001
      example_world]
    queue_backup_config_pair [of orders_on_default "JStr ''orders''" "JStr ''/''" "JNum 2000" 2000
      example_world]
  by (simp add: ranges_queue_def orders_on_default_def dict_get_def num_of_def example_world_def
        example_monitor_def init_monitor_def default_thresholds_def calls_of_def
        alert_key_def key_prefix_def py_str_def time_now_def)

lemma queue_backup_rule_numeric:
  "num_of messages = Some m \<Longrightarrow>
   queue_backup_rule name vhost messages T cd w =
     (Inr (),
      if real_of_int T < m
      then alert (alert_key (py_repr w) QueueBackup name) (Some cd)
             (QueueBackupDetected name messages T vhost) ''critical'' w
      else w)"
  by (simp add: queue_backup_rule_def py_gt_def)

lemma unacked_rule_numeric:
  "num_of unacked = Some u \<Longrightarrow>
   unacked_rule name unacked cd w =
     (Inr (),
      if real_of_int (max_unacknowledged_messages (thresholds (self w))) < u
      then alert (alert_key (py_repr w) Unacked name) (Some cd)
             (HighUnacknowledged name unacked (max_unacknowledged_messages (thresholds (self w))))
             ''warning'' w
      else w)"
  by (simp add: unacked_rule_def py_gt_def)

lemma no_consumers_rule_numeric:
  "num_of messages = Some m \<Longrightarrow> num_of consumers = Some c \<Longrightarrow>
   no_consumers_rule name messages consumers cd w =
     (Inr (),
      if 0 < m \<and> c < real_of_int (min_consumers_per_queue (thresholds (self w)))
      then alert (alert_key (py_repr w) NoConsumers name) (Some cd)
             (MissingConsumers name messages consumers (min_consumers_per_queue (thresholds (self w))))
             ''warning'' w
      else w)"
  by (simp add: no_consumers_rule_def no_consumers_condition_def py_gt_def py_lt_def
        split: bool.splits)

lemma processing_halt_condition_numeric:
  "num_of messages = Some m \<Longrightarrow> num_of publish_rate = Some p \<Longrightarrow>
   processing_halt_condition mon messages consume_rate publish_rate =
     Inr (real_of_int (processing_halt_threshold (thresholds mon)) < m
          \<and> py_eq consume_rate 0 \<and> 0 < p)"
  by (simp add: processing_halt_condition_def py_gt_def split: bool.splits)

lemma processing_halt_rule_numeric:
  "dict_get queue ''message_stats'' (JObj []) = Inr stats \<Longrightarrow>
   rate_of stats ''publish_details'' = Inr publish_rate \<Longrightarrow>
   rate_of stats ''deliver_get_details'' = Inr consume_rate \<Longrightarrow>
   num_of messages = Some m \<Longrightarrow> num_of publish_rate = Some p \<Longrightarrow>
   processing_halt_rule queue name messages cd w =
     (Inr (),
      if real_of_int (processing_halt_threshold (thresholds (self w))) < m
         \<and> py_eq consume_rate 0 \<and> 0 < p
      then alert (alert_key (py_repr w) ProcessingHalt name) (Some cd)
             (ProcessingHalted name messages publish_rate consume_rate) ''critical'' w
      else w)"
  by (simp add: processing_halt_rule_def and_then_def lift_def processing_halt_condition_numeric)


text \<open>
  Claim C9.  For a queue of the override list, each of the four queue rules is held back
  by the override cooldown, not by the default one.  Take such a queue with numeric counts
  and rates, any one rule \<open>R\<close> of the four, and a record \<open>t\<close> under the key of \<open>R\<close> for the
  queue.  If every reading of the clock the check can take (at most eight) is less than
  the override cooldown after \<open>t\<close>, the check makes no call for \<open>R\<close>.  If every such
  reading is at least the override cooldown after \<open>t\<close>, the check makes one call for \<open>R\<close>
  exactly when the condition of \<open>R\<close> holds: the depth against the override threshold for
  queue backup, and the global thresholds for the other three rules.
\<close>

theorem override_cooldown_all_queue_rules:
  fixes w :: world
  assumes name: "dict_get queue ''name'' (JStr ''unknown'') = Inr (JStr n)"
    and override: "n \<in> set (long_job_queues (self w))"
    and messages: "dict_get queue ''messages'' (JNum 0) = Inr messages"
    and m: "num_of messages = Some m"
    and unacked: "dict_get queue ''messages_unacknowledged'' (JNum 0) = Inr unacked"
    and u: "num_of unacked = Some u"
    and consumers: "dict_get queue ''consumers'' (JNum 0) = Inr consumers"
    and c: "num_of consumers = Some c"
    and stats: "dict_get queue ''message_stats'' (JObj []) = Inr stats"
    and publish: "rate_of stats ''publish_details'' = Inr publish_rate"
    and consume: "rate_of stats ''deliver_get_details'' = Inr consume_rate"
    and p: "num_of publish_rate = Some p"
    and R: "R \<in> {QueueBackup, Unacked, NoConsumers, ProcessingHalt}"
    and seen: "last_alerts (self w) (alert_key (py_repr w) R (JStr n)) = Some t"
  shows "((\<forall>i<8. clock w (clock_reads w + i) - t < real_of_int (long_job_cooldown (self w)))
            \<longrightarrow> calls_of R (snd (check_queue queue w)) = calls_of R w)
       \<and> ((\<forall>i<8. real_of_int (long_job_cooldown (self w)) \<le> clock w (clock_reads w + i) - t)
            \<longrightarrow> length (calls_of R (snd (check_queue queue w))) =
                length (calls_of R w) +
                (if (case R of
                       QueueBackup \<Rightarrow> real_of_int (long_job_threshold (self w)) < m
                     | Unacked \<Rightarrow>
                         real_of_int (max_unacknowledged_messages (thresholds (self w))) < u
                     | NoConsumers \<Rightarrow>
                         0 < m \<and> c < real_of_int (min_consumers_per_queue (thresholds (self w)))
                     | ProcessingHalt \<Rightarrow>
                         real_of_int (processing_halt_threshold (thresholds (self w))) < m
                         \<and> py_eq consume_rate 0 \<and> 0 < p
                     | _ \<Rightarrow> False)
                 then 1 else 0))"
proof -
  define T where "T = long_job_threshold (self w)"
  define cd where "cd = long_job_cooldown (self w)"
  define th where "th = thresholds (self w)"
  define k where "k = alert_key (py_repr w) R (JStr n)"
  have cfg: "get_queue_config (self w) (JStr n) = (T, cd)"
    using override by (simp add: get_queue_config_def T_def cd_def)
  obtain vhost where vhost: "dict_get queue ''vhost'' (JStr ''/'') = Inr vhost"
    using dict_get_total [OF name] by metis
  define step where "step r b msg sev v =
      (if b then alert (alert_key (py_repr w) r (JStr n)) (Some cd) msg sev v else v)"
    for r :: rule and b :: bool and msg sev and v :: world
  define c1 where "c1 = (real_of_int T < m)"
  define c2 where "c2 = (real_of_int (max_unacknowledged_messages th) < u)"
  define c3 where "c3 = (0 < m \<and> c < real_of_int (min_consumers_per_queue th))"
  define c4 where "c4 = (real_of_int (processing_halt_threshold th) < m
      \<and> py_eq consume_rate 0 \<and> 0 < p)"
  define m1 where "m1 = QueueBackupDetected (JStr n) messages T vhost"
  define m2 where "m2 = HighUnacknowledged (JStr n) unacked (max_unacknowledged_messages th)"
  define m3 where "m3 = MissingConsumers (JStr n) messages consumers (min_consumers_per_queue th)"
  define m4 where "m4 = ProcessingHalted (JStr n) messages publish_rate consume_rate"
  have rules: "rule_of m1 = Some QueueBackup" "rule_of m2 = Some Unacked"
    "rule_of m3 = Some NoConsumers" "rule_of m4 = Some ProcessingHalt"
    by (simp_all add: m1_def m2_def m3_def m4_def)
  define E where "E v = (py_repr v = py_repr w \<and> thresholds (self v) = th \<and> clock v = clock w)"
    for v :: world
  have E0: "E w" by (simp add: E_def th_def)
  have Estep: "E (step r b msg sev v)" if "E v" for r b msg sev v
    using that by (simp add: E_def step_def)
  have b1: "queue_backup_rule (JStr n) vhost messages T cd v = (Inr (), step QueueBackup c1 m1 ''critical'' v)"
    if "E v" for v
    using that by (simp add: queue_backup_rule_numeric [OF m] step_def c1_def m1_def E_def)
  have b2: "unacked_rule (JStr n) unacked cd v = (Inr (), step Unacked c2 m2 ''warning'' v)"
    if "E v" for v
    using that by (simp add: unacked_rule_numeric [OF u] step_def c2_def m2_def E_def)
  have b3: "no_consumers_rule (JStr n) messages consumers cd v
      = (Inr (), step NoConsumers c3 m3 ''warning'' v)"
    if "E v" for v
    using that by (simp add: no_consumers_rule_numeric [OF m c] step_def c3_def m3_def E_def)
  have b4: "processing_halt_rule queue (JStr n) messages cd v
      = (Inr (), step ProcessingHalt c4 m4 ''critical'' v)"
    if "E v" for v
    using that
    by (simp add: processing_halt_rule_numeric [OF stats publish consume m p] step_def c4_def
        m4_def E_def)
  define v1 where "v1 = step QueueBackup c1 m1 ''critical'' w"
  define v2 where "v2 = step Unacked c2 m2 ''warning'' v1"
  define v3 where "v3 = step NoConsumers c3 m3 ''warning'' v2"
  define v4 where "v4 = step ProcessingHalt c4 m4 ''critical'' v3"
  have E1: "E v1" unfolding v1_def by (rule Estep [OF E0])
  have E2: "E v2" unfolding v2_def by (rule Estep [OF E1])
  have E3: "E v3" unfolding v3_def by (rule Estep [OF E2])
  have final: "snd (check_queue queue w) = v4"
    unfolding check_queue_chain [OF name vhost messages unacked consumers cfg]
    by (simp add: and_then_def b1 b2 b3 b4 E0 Estep v4_def v3_def v2_def v1_def)
  define J where "J j v = (clock v = clock w \<and> clock_reads w \<le> clock_reads v
      \<and> clock_reads v \<le> clock_reads w + 2 * j \<and> last_alerts (self v) k = Some t
      \<and> default_alert_cooldown (self v) = default_alert_cooldown (self w)
      \<and> calls_of R v = calls_of R w)" for j :: nat and v :: world
  have J0: "J 0 w" using seen by (simp add: J_def k_def)
  have pre: "J (Suc j) (step r b msg sev v)"
    if "J j v" "r \<noteq> R" "rule_of msg = Some r" for j r b msg sev v
    using that alert_clock_reads [of v "alert_key (py_repr w) r (JStr n)" "Some cd" msg sev]
    by (auto simp: J_def step_def k_def alert_last_other alert_calls_other alert_key_eq_iff)
  have post: "calls_of R (step r b msg sev v) = calls_of R v"
    if "r \<noteq> R" "rule_of msg = Some r" for r b msg sev v
    using that by (simp add: step_def alert_calls_other)
  have reading: "\<exists>i<8. time_now v = clock w (clock_reads w + i)" if "J j v" "j \<le> 3" for j v
  proof -
    from that have "clock_reads v - clock_reads w < 8"
      and "time_now v = clock w (clock_reads w + (clock_reads v - clock_reads w))"
      by (auto simp: J_def time_now_def)
    then show ?thesis by blast
  qed
  have own_quiet: "calls_of R (step R b msg sev v) = calls_of R w"
    if "\<forall>i<8. clock w (clock_reads w + i) - t < real_of_int cd"
      "J j v" "j \<le> 3" "rule_of msg = Some R" for j b msg sev v
  proof -
    from reading [OF that(2,3)] that(1) have "time_now v - t < real_of_int cd" by auto
    then have "\<not> fst (should_send_alert k (Some cd) v)"
      using that(2) by (simp add: should_send_alert_fst J_def effective_cooldown_def)
    then show ?thesis
      using that(2,4) by (simp add: step_def alert_calls_own J_def k_def)
  qed
  have own_fires: "calls_of R (step R b msg sev v) = calls_of R w @ (if b then [(msg, sev)] else [])"
    if "\<forall>i<8. real_of_int cd \<le> clock w (clock_reads w + i) - t"
      "J j v" "j \<le> 3" "rule_of msg = Some R" for j b msg sev v
  proof -
    from reading [OF that(2,3)] that(1) have "real_of_int cd \<le> time_now v - t" by auto
    then have "fst (should_send_alert k (Some cd) v)"
      using that(2) by (simp add: should_send_alert_fst J_def effective_cooldown_def)
    then show ?thesis
      using that(2,4) by (simp add: step_def alert_calls_own J_def k_def)
  qed
  have J1: "J 1 v1" if "R \<noteq> QueueBackup"
    unfolding v1_def using pre [OF J0 _ rules(1)] that by simp
  have J2: "J 2 v2" if "R \<noteq> QueueBackup" "R \<noteq> Unacked"
    unfolding v2_def using pre [OF J1 _ rules(2)] that by (simp add: numeral_2_eq_2)
  have J3: "J 3 v3" if "R \<noteq> QueueBackup" "R \<noteq> Unacked" "R \<noteq> NoConsumers"
    unfolding v3_def using pre [OF J2 _ rules(3)] that by (simp add: numeral_3_eq_3)
  have keep1: "calls_of R v4 = calls_of R v1" if "R = QueueBackup"
  proof -
    from that have ne: "Unacked \<noteq> R" "NoConsumers \<noteq> R" "ProcessingHalt \<noteq> R" by simp_all
    show ?thesis
      unfolding v4_def v3_def v2_def
      by (simp only: post [OF ne(3) rules(4)] post [OF ne(2) rules(3)] post [OF ne(1) rules(2)])
  qed
  have keep2: "calls_of R v4 = calls_of R v2" if "R = Unacked"
  proof -
    from that have ne: "NoConsumers \<noteq> R" "ProcessingHalt \<noteq> R" by simp_all
    show ?thesis
      unfolding v4_def v3_def
      by (simp only: post [OF ne(2) rules(4)] post [OF ne(1) rules(3)])
  qed
  have keep3: "calls_of R v4 = calls_of R v3" if "R = NoConsumers"
  proof -
    from that have ne: "ProcessingHalt \<noteq> R" by simp
    show ?thesis
      unfolding v4_def by (simp only: post [OF ne rules(4)])
  qed
  from R consider (backup) "R = QueueBackup" | (unacked) "R = Unacked"
    | (consumers) "R = NoConsumers" | (halt) "R = ProcessingHalt"
    by auto
  note split_R = this
  show ?thesis
  proof (intro conjI impI)
    assume within: "\<forall>i<8. clock w (clock_reads w + i) - t < real_of_int (long_job_cooldown (self w))"
    then have q: "\<forall>i<8. clock w (clock_reads w + i) - t < real_of_int cd" by (simp add: cd_def)
    have "calls_of R v4 = calls_of R w"
    proof (cases rule: split_R)
      case backup
      have "rule_of m1 = Some R" using backup rules by simp
      from own_quiet [OF q J0 _ this, of c1 "''critical''"] keep1 [OF backup] backup
      show ?thesis by (simp add: v1_def)
    next
      case unacked
      have "rule_of m2 = Some R" using unacked rules by simp
      from own_quiet [OF q J1 _ this, of c2 "''warning''"] keep2 [OF unacked] unacked
      show ?thesis by (simp add: v2_def)
    next
      case consumers
      have "rule_of m3 = Some R" using consumers rules by simp
      from own_quiet [OF q J2 _ this, of c3 "''warning''"] keep3 [OF consumers] consumers
      show ?thesis by (simp add: v3_def)
    next
      case halt
      have "rule_of m4 = Some R" using halt rules by simp
      from own_quiet [OF q J3 _ this, of c4 "''critical''"] halt
      show ?thesis by (simp add: v4_def)
    qed
    then show "calls_of R (snd (check_queue queue w)) = calls_of R w"
      by (simp add: final)
  next
    assume "\<forall>i<8. real_of_int (long_job_cooldown (self w)) \<le> clock w (clock_reads w + i) - t"
    then have q: "\<forall>i<8. real_of_int cd \<le> clock w (clock_reads w + i) - t" by (simp add: cd_def)
    have "length (calls_of R v4) = length (calls_of R w) +
        (if (case R of QueueBackup \<Rightarrow> c1 | Unacked \<Rightarrow> c2 | NoConsumers \<Rightarrow> c3
             | ProcessingHalt \<Rightarrow> c4 | _ \<Rightarrow> False) then 1 else 0)"
    proof (cases rule: split_R)
      case backup
      have "rule_of m1 = Some R" using backup rules by simp
      from own_fires [OF q J0 _ this, of c1 "''critical''"] keep1 [OF backup] backup
      show ?thesis by (simp add: v1_def)
    next
      case unacked
      have "rule_of m2 = Some R" using unacked rules by simp
      from own_fires [OF q J1 _ this, of c2 "''warning''"] keep2 [OF unacked] unacked
      show ?thesis by (simp add: v2_def)
    next
      case consumers
      have "rule_of m3 = Some R" using consumers rules by simp
      from own_fires [OF q J2 _ this, of c3 "''warning''"] keep3 [OF consumers] consumers
      show ?thesis by (simp add: v3_def)
    next
      case halt
      have "rule_of m4 = Some R" using halt rules by simp
      from own_fires [OF q J3 _ this, of c4 "''critical''"] halt
      show ?thesis by (simp add: v4_def)
    qed
    then show "length (calls_of R (snd (check_queue queue w))) =
                length (calls_of R w) +
                (if (case R of
                       QueueBackup \<Rightarrow> real_of_int (long_job_threshold (self w)) < m
                     | Unacked \<Rightarrow>
                         real_of_int (max_unacknowledged_messages (thresholds (self w))) < u
                     | NoConsumers \<Rightarrow>
                         0 < m \<and> c < real_of_int (min_consumers_per_queue (thresholds (self w)))
                     | ProcessingHalt \<Rightarrow>
                         real_of_int (processing_halt_threshold (thresholds (self w))) < m
                         \<and> py_eq consume_rate 0 \<and> 0 < p
                     | _ \<Rightarrow> False)
                 then 1 else 0)"
      by (simp add: final c1_def c2_def c3_def c4_def T_def th_def split: rule.splits)
  qed
qed


theorem override_cooldown_all_queue_rules_witness:
  "''colateral-events-production-location-ranges'' \<in> set (long_job_queues (self recent_alert_world))
   \<and> default_alert_cooldown (self recent_alert_world) = 1800
   \<and> long_job_cooldown (self recent_alert_world) = 10800
   \<and> time_now recent_alert_world - 15000 = 5000
   \<and> calls_of Unacked (snd (check_queue ranges_backlog recent_alert_world)) = []
   \<and> length (calls_of Unacked (snd (check_queue ranges_backlog stale_alert_world))) = 1"
proof -
  let ?n = "''colateral-events-production-location-ranges''"
  let ?stats = "JObj [(''publish_details'', JObj [(''rate'', JNum 5)]),
                      (''deliver_get_details'', JObj [(''rate'', JNum 0)])]"
  have name: "dict_get ranges_backlog ''name'' (JStr ''unknown'') = Inr (JStr ?n)"
    and messages: "dict_get ranges_backlog ''messages'' (JNum 0) = Inr (JNum 2000000)"
    and unacked: "dict_get ranges_backlog ''messages_unacknowledged'' (JNum 0) = Inr (JNum 600)"
    and consumers: "dict_get ranges_backlog ''consumers'' (JNum 0) = Inr (JNum 0)"
    and stats: "dict_get ranges_backlog ''message_stats'' (JObj []) = Inr ?stats"
    by (simp_all add: ranges_backlog_def dict_get_def)
  have publish: "rate_of ?stats ''publish_details'' = Inr (JNum 5)"
    and consume: "rate_of ?stats ''deliver_get_details'' = Inr (JNum 0)"
    by (simp_all add: rate_of_def dict_get_def)
  have nums: "num_of (JNum 2000000) = Some 2000000" "num_of (JNum 600) = Some 600"
    "num_of (JNum 0) = Some 0" "num_of (JNum 5) = Some 5"
    by (simp_all add: num_of_def)
  have R: "Unacked \<in> {QueueBackup, Unacked, NoConsumers, ProcessingHalt}" by simp
  have over1: "?n \<in> set (long_job_queues (self recent_alert_world))"
    and seen1: "last_alerts (self recent_alert_world)
        (alert_key (py_repr recent_alert_world) Unacked (JStr ?n)) = Some 15000"
    and over2: "?n \<in> set (long_job_queues (self stale_alert_world))"
    and seen2: "last_alerts (self stale_alert_world)
        (alert_key (py_repr stale_alert_world) Unacked (JStr ?n)) = Some 1000"
    by (simp_all add: recent_alert_world_def stale_alert_world_def example_world_def
        example_monitor_def init_monitor_def alert_key_def key_prefix_def py_str_def)
  have within: "\<forall>i<8. clock recent_alert_world (clock_reads recent_alert_world + i) - 15000
      < real_of_int (long_job_cooldown (self recent_alert_world))"
    by (auto simp: recent_alert_world_def example_world_def example_monitor_def init_monitor_def)
  have elapsed: "\<forall>i<8. real_of_int (long_job_cooldown (self stale_alert_world))
      \<le> clock stale_alert_world (clock_reads stale_alert_world + i) - 1000"
    by (auto simp: stale_alert_world_def example_world_def example_monitor_def init_monitor_def)
  have quiet: "calls_of Unacked (snd (check_queue ranges_backlog recent_alert_world))
      = calls_of Unacked recent_alert_world"
    using override_cooldown_all_queue_rules [OF name over1 messages nums(1) unacked nums(2)
        consumers nums(3) stats publish consume nums(4) R seen1] within
    by blast
  have fired: "length (calls_of Unacked (snd (check_queue ranges_backlog stale_alert_world)))
      = length (calls_of Unacked stale_alert_world) + 1"
    using override_cooldown_all_queue_rules [OF name over2 messages nums(1) unacked nums(2)
        consumers nums(3) stats publish consume nums(4) R seen2] elapsed
    by (simp add: stale_alert_world_def example_world_def example_monitor_def init_monitor_def
        default_thresholds_def)
  show ?thesis
    using quiet fired over1
    by (simp add: recent_alert_world_def stale_alert_world_def example_world_def
        example_monitor_def init_monitor_def calls_of_def time_now_def)
qed

lemma processing_halt_condition_True:
  "(processing_halt_condition mon messages consume_rate publish_rate = Inr True) =
     (\<exists>m p. num_of messages = Some m
        \<and> real_of_int (processing_halt_threshold (thresholds mon)) < m
        \<and> py_eq consume_rate 0
        \<and> num_of publish_rate = Some p \<and> 0 < p)"
  by (auto simp: processing_halt_condition_def py_gt_def split: option.splits bool.splits)

lemma processing_halt_condition_thresholds:
  "thresholds mon = thresholds mon' \<Longrightarrow>
   processing_halt_condition mon = processing_halt_condition mon'"
  by (simp add: processing_halt_condition_def fun_eq_iff)

lemma rate_of_empty: "rate_of (JObj []) details = Inr (JNum 0)"
  by (simp add: rate_of_def dict_get_def)

lemma processing_halt_rule_no_stats:
  "dict_get queue ''message_stats'' (JObj []) = Inr (JObj []) \<Longrightarrow>
   processing_halt_rule queue name messages cd v =
     (case num_of messages of None \<Rightarrow> (Inl TypeError, v) | Some m \<Rightarrow> (Inr (), v))"
  by (simp add: processing_halt_rule_def and_then_def lift_def rate_of_empty
        processing_halt_condition_def py_gt_def py_eq_def num_of_def
        split: option.splits bool.splits)

lemma queue_backup_rule_Inr:
  "queue_backup_rule name vhost messages T cd w = (Inr x, v) \<Longrightarrow> \<exists>m. num_of messages = Some m"
  by (auto simp: queue_backup_rule_def py_gt_def split: option.splits)

lemma check_queue_counts_Inr:
  assumes "check_queue_counts queue w = (Inr (name, messages, cd), v)"
  shows "\<exists>m. num_of messages = Some m"
proof -
  obtain T c where cfg: "get_queue_config (self w)
      (case dict_get queue ''name'' (JStr ''unknown'') of Inr x \<Rightarrow> x | Inl _ \<Rightarrow> JNull) = (T, c)"
    by (cases "get_queue_config (self w)
      (case dict_get queue ''name'' (JStr ''unknown'') of Inr x \<Rightarrow> x | Inl _ \<Rightarrow> JNull)")
  show ?thesis
    using assms cfg
    by (auto simp: check_queue_counts_def and_then_def lift_def ret_def
        split: sum.splits prod.splits dest: queue_backup_rule_Inr)
qed


lemma processing_halt_rule_fired:
  assumes "calls_of ProcessingHalt (snd (processing_halt_rule queue name messages cd v))
      \<noteq> calls_of ProcessingHalt v"
  shows "\<exists>stats publish_rate consume_rate.
      dict_get queue ''message_stats'' (JObj []) = Inr stats
      \<and> rate_of stats ''publish_details'' = Inr publish_rate
      \<and> rate_of stats ''deliver_get_details'' = Inr consume_rate
      \<and> processing_halt_condition (self v) messages consume_rate publish_rate = Inr True"
  using assms
  by (auto simp: processing_halt_rule_def and_then_def lift_def split: sum.splits if_splits)

lemma halt_only_when:
  assumes changed: "calls_of ProcessingHalt (snd (check_queue queue w)) \<noteq> calls_of ProcessingHalt w"
  shows "\<exists>messages stats publish_rate consume_rate.
      dict_get queue ''messages'' (JNum 0) = Inr messages
      \<and> dict_get queue ''message_stats'' (JObj []) = Inr stats
      \<and> rate_of stats ''publish_details'' = Inr publish_rate
      \<and> rate_of stats ''deliver_get_details'' = Inr consume_rate
      \<and> processing_halt_condition (self w) messages consume_rate publish_rate = Inr True"
proof (cases "dict_get queue ''name'' (JStr ''unknown'')")
  case (Inl e)
  then show ?thesis using changed by (simp add: check_queue_not_dict)
next
  case (Inr name)
  obtain vhost messages unacked consumers where gets:
    "dict_get queue ''vhost'' (JStr ''/'') = Inr vhost"
    "dict_get queue ''messages'' (JNum 0) = Inr messages"
    "dict_get queue ''messages_unacknowledged'' (JNum 0) = Inr unacked"
    "dict_get queue ''consumers'' (JNum 0) = Inr consumers"
    using dict_get_total [OF Inr] by metis
  obtain T cd where cfg: "get_queue_config (self w) name = (T, cd)"
    by (cases "get_queue_config (self w) name")
  let ?goal = "\<exists>stats publish_rate consume_rate.
      dict_get queue ''message_stats'' (JObj []) = Inr stats
      \<and> rate_of stats ''publish_details'' = Inr publish_rate
      \<and> rate_of stats ''deliver_get_details'' = Inr consume_rate
      \<and> processing_halt_condition (self w) messages consume_rate publish_rate = Inr True"
  let ?P = "\<lambda>v::world. py_repr v = py_repr w \<and> thresholds (self v) = thresholds (self w)
      \<and> calls_of ProcessingHalt v = calls_of ProcessingHalt w"
  let ?Q = "\<lambda>v::world. calls_of ProcessingHalt v \<noteq> calls_of ProcessingHalt w \<longrightarrow> ?goal"
  have P0: "?P w" by simp
  have pstep: "?P (alert (alert_key (py_repr v) r name) c m s v)"
    if "?P v" "rule_of m = Some r" "r \<noteq> ProcessingHalt" for r m s v c
    using that by (simp add: alert_calls_other)
  have backup: "?P (snd (queue_backup_rule name vh ms T' cd v))" if "?P v" for vh ms T' v
    by (rule queue_backup_rule_preserves [where P = ?P]) (use that pstep in auto)
  have unack: "?P (snd (unacked_rule name u cd v))" if "?P v" for u v
    by (rule unacked_rule_preserves [where P = ?P]) (use that pstep in auto)
  have cons: "?P (snd (no_consumers_rule name ms c cd v))" if "?P v" for ms c v
    by (rule no_consumers_rule_preserves [where P = ?P]) (use that pstep in auto)
  have exit: "?Q v" if "?P v" for v using that by simp
  have halt: "?Q (snd (processing_halt_rule queue name messages cd v))" if "?P v" for v
  proof
    assume "calls_of ProcessingHalt (snd (processing_halt_rule queue name messages cd v))
        \<noteq> calls_of ProcessingHalt w"
    with that have "calls_of ProcessingHalt (snd (processing_halt_rule queue name messages cd v))
        \<noteq> calls_of ProcessingHalt v" by simp
    from processing_halt_rule_fired [OF this] that show ?goal
      by (simp add: processing_halt_condition_thresholds [of "self v" "self w"])
  qed
  have h3: "?Q (snd (and_then (no_consumers_rule name messages consumers cd)
        (\<lambda>_. processing_halt_rule queue name messages cd) v))" if "?P v" for v
    using that cons exit halt
    by (intro and_then_post [where P = ?P and P' = ?P and Q = ?Q and w = v
          and m = "no_consumers_rule name messages consumers cd"
          and f = "\<lambda>_. processing_halt_rule queue name messages cd"]) blast+
  have h2: "?Q (snd (and_then (unacked_rule name unacked cd) (\<lambda>_.
        and_then (no_consumers_rule name messages consumers cd)
        (\<lambda>_. processing_halt_rule queue name messages cd)) v))" if "?P v" for v
    using that unack exit h3
    by (intro and_then_post [where P = ?P and P' = ?P and Q = ?Q and w = v
          and m = "unacked_rule name unacked cd"
          and f = "\<lambda>_. and_then (no_consumers_rule name messages consumers cd)
            (\<lambda>_. processing_halt_rule queue name messages cd)"]) blast+
  have "?Q (snd (check_queue queue w))"
    unfolding check_queue_chain [OF Inr gets cfg]
    using P0 backup exit h2
    by (intro and_then_post [where P = ?P and P' = ?P and Q = ?Q and w = w
          and m = "queue_backup_rule name vhost messages T cd"
          and f = "\<lambda>_. and_then (unacked_rule name unacked cd) (\<lambda>_.
            and_then (no_consumers_rule name messages consumers cd)
            (\<lambda>_. processing_halt_rule queue name messages cd))"]) blast+
  with changed gets(2) show ?thesis by blast
qed


lemma check_queue_no_stats:
  assumes "map_of kvs ''message_stats'' = None"
  shows "check_queue (JObj kvs) w =
     (case check_queue_counts (JObj kvs) w of
        (Inl e, v) \<Rightarrow> (Inl e, v)
      | (Inr x, v) \<Rightarrow> (Inr (), v))"
proof (cases "check_queue_counts (JObj kvs) w")
  case (Pair r v)
  show ?thesis
  proof (cases r)
    case (Inl e)
    with Pair show ?thesis by (simp add: check_queue_def and_then_def)
  next
    case (Inr x)
    obtain name messages cd where x: "x = (name, messages, cd)" by (cases x)
    from check_queue_counts_Inr [of "JObj kvs" w name messages cd v] Pair Inr x
    obtain m where "num_of messages = Some m" by auto
    moreover have "dict_get (JObj kvs) ''message_stats'' (JObj []) = Inr (JObj [])"
      using assms by (simp add: dict_get_def)
    ultimately have "processing_halt_rule (JObj kvs) name messages cd v = (Inr (), v)"
      by (simp add: processing_halt_rule_no_stats)
    with Pair Inr x show ?thesis by (simp add: check_queue_def and_then_def)
  qed
qed

lemma check_queue_counts_numeric:
  assumes "dict_get queue ''messages'' (JNum 0) = Inr messages" "num_of messages = Some m"
    and "dict_get queue ''messages_unacknowledged'' (JNum 0) = Inr unacked" "num_of unacked = Some u"
    and "dict_get queue ''consumers'' (JNum 0) = Inr consumers" "num_of consumers = Some c"
  shows "\<exists>x. fst (check_queue_counts queue w) = Inr x"
proof -
  obtain name vhost where gets:
    "dict_get queue ''name'' (JStr ''unknown'') = Inr name"
    "dict_get queue ''vhost'' (JStr ''/'') = Inr vhost"
    using dict_get_total [OF assms(1)] by metis
  obtain T cd where cfg: "get_queue_config (self w) name = (T, cd)"
    by (cases "get_queue_config (self w) name")
  show ?thesis
    using assms gets cfg
    by (simp add: check_queue_counts_def and_then_def lift_def ret_def
        queue_backup_rule_numeric [OF assms(2)] unacked_rule_numeric [OF assms(4)]
        no_consumers_rule_numeric [OF assms(2,6)])
qed


text \<open>
  Claim C6.  The condition of the processing-halt rule is true exactly when the depth is a
  number above the halt threshold, the consume rate equals 0 and the publish rate is a
  number above 0; so making any one of the three false suppresses the rule.  A check of a
  queue calls \<^verbatim>\<open>send_slack_alert\<close> for the rule only when that condition holds of the
  depth and rates of the snapshot.  For a snapshot without \<^verbatim>\<open>message_stats\<close> both rates
  are read as 0, the condition is not true, no call is made for the rule, and the halt
  block neither raises nor changes anything: the check comes to what the three other
  rules make of the snapshot, and it raises nothing when the three counts are numeric.
\<close>

theorem processing_halt_only_when:
  "(processing_halt_condition mon messages consume_rate publish_rate = Inr True) =
     (\<exists>m p. num_of messages = Some m
        \<and> real_of_int (processing_halt_threshold (thresholds mon)) < m
        \<and> py_eq consume_rate 0
        \<and> num_of publish_rate = Some p \<and> 0 < p)
   \<and> (calls_of ProcessingHalt (snd (check_queue queue w)) \<noteq> calls_of ProcessingHalt w \<longrightarrow>
        (\<exists>depth stats pr cr.
           dict_get queue ''messages'' (JNum 0) = Inr depth
           \<and> dict_get queue ''message_stats'' (JObj []) = Inr stats
           \<and> rate_of stats ''publish_details'' = Inr pr
           \<and> rate_of stats ''deliver_get_details'' = Inr cr
           \<and> processing_halt_condition (self w) depth cr pr = Inr True))
   \<and> (map_of kvs ''message_stats'' = None \<longrightarrow>
        dict_get (JObj kvs) ''message_stats'' (JObj []) = Inr (JObj [])
        \<and> rate_of (JObj []) ''publish_details'' = Inr (JNum 0)
        \<and> rate_of (JObj []) ''deliver_get_details'' = Inr (JNum 0)
        \<and> processing_halt_condition mon messages (JNum 0) (JNum 0) \<noteq> Inr True
        \<and> calls_of ProcessingHalt (snd (check_queue (JObj kvs) v)) = calls_of ProcessingHalt v
        \<and> check_queue (JObj kvs) v =
            (case check_queue_counts (JObj kvs) v of
               (Inl e, v') \<Rightarrow> (Inl e, v')
             | (Inr x, v') \<Rightarrow> (Inr (), v'))
        \<and> ((\<exists>a m b u c n. dict_get (JObj kvs) ''messages'' (JNum 0) = Inr a \<and> num_of a = Some m
               \<and> dict_get (JObj kvs) ''messages_unacknowledged'' (JNum 0) = Inr b
               \<and> num_of b = Some u
               \<and> dict_get (JObj kvs) ''consumers'' (JNum 0) = Inr c \<and> num_of c = Some n)
             \<longrightarrow> fst (check_queue (JObj kvs) v) = Inr ()))"
proof (intro conjI impI)
  show "(processing_halt_condition mon messages consume_rate publish_rate = Inr True) =
     (\<exists>m p. num_of messages = Some m
        \<and> real_of_int (processing_halt_threshold (thresholds mon)) < m
        \<and> py_eq consume_rate 0
        \<and> num_of publish_rate = Some p \<and> 0 < p)"
    by (rule processing_halt_condition_True)
next
  assume "calls_of ProcessingHalt (snd (check_queue queue w)) \<noteq> calls_of ProcessingHalt w"
  from halt_only_when [OF this]
  show "\<exists>depth stats pr cr.
           dict_get queue ''messages'' (JNum 0) = Inr depth
           \<and> dict_get queue ''message_stats'' (JObj []) = Inr stats
           \<and> rate_of stats ''publish_details'' = Inr pr
           \<and> rate_of stats ''deliver_get_details'' = Inr cr
           \<and> processing_halt_condition (self w) depth cr pr = Inr True"
    by blast
next
  assume none: "map_of kvs ''message_stats'' = None"
  then show stats: "dict_get (JObj kvs) ''message_stats'' (JObj []) = Inr (JObj [])"
    by (simp add: dict_get_def)
  show "rate_of (JObj []) ''publish_details'' = Inr (JNum 0)"
    and "rate_of (JObj []) ''deliver_get_details'' = Inr (JNum 0)"
    by (rule rate_of_empty)+
  show no: "processing_halt_condition mon messages (JNum 0) (JNum 0) \<noteq> Inr True"
    by (simp add: processing_halt_condition_True num_of_def)
  show "calls_of ProcessingHalt (snd (check_queue (JObj kvs) v)) = calls_of ProcessingHalt v"
  proof (rule ccontr)
    assume "calls_of ProcessingHalt (snd (check_queue (JObj kvs) v)) \<noteq> calls_of ProcessingHalt v"
    from halt_only_when [OF this] stats show False
      by (auto simp: rate_of_empty processing_halt_condition_True num_of_def)
  qed
  show eq: "check_queue (JObj kvs) v =
            (case check_queue_counts (JObj kvs) v of
               (Inl e, v') \<Rightarrow> (Inl e, v')
             | (Inr x, v') \<Rightarrow> (Inr (), v'))"
    by (rule check_queue_no_stats [OF none])
  assume "\<exists>a m b u c n. dict_get (JObj kvs) ''messages'' (JNum 0) = Inr a \<and> num_of a = Some m
               \<and> dict_get (JObj kvs) ''messages_unacknowledged'' (JNum 0) = Inr b
               \<and> num_of b = Some u
               \<and> dict_get (JObj kvs) ''consumers'' (JNum 0) = Inr c \<and> num_of c = Some n"
  then obtain x where "fst (check_queue_counts (JObj kvs) v) = Inr x"
    using check_queue_counts_numeric [of "JObj kvs" _ _ _ _ _ _ v] by blast
  then show "fst (check_queue (JObj kvs) v) = Inr ()"
    unfolding eq by (cases "check_queue_counts (JObj kvs) v") auto
qed


theorem processing_halt_only_when_witness:
  "processing_halt_condition example_monitor (JNum 2000000) (JNum 0) (JNum 5) = Inr True
   \<and> processing_halt_condition example_monitor (JNum 2000000) (JNum 0) (JNum 0) = Inr False
   \<and> processing_halt_condition example_monitor (JNum 2000000) (JNum 1) (JNum 5) = Inr False
   \<and> processing_halt_condition example_monitor (JNum 100) (JNum 0) (JNum 5) = Inr False
   \<and> calls_of ProcessingHalt (snd (check_queue ranges_backlog example_world))
       = [(ProcessingHalted (JStr ''colateral-events-production-location-ranges'')
             (JNum 2000000) (JNum 5) (JNum 0), ''critical'')]
   \<and> map_of [(''name'', JStr ''orders''), (''vhost'', JStr ''/''),
              (''messages'', JNum 2000), (''consumers'', JNum 1)] ''message_stats'' = None
   \<and> fst (check_queue orders_on_default example_world) = Inr ()
   \<and> calls_of ProcessingHalt (snd (check_queue orders_on_default example_world)) = []
   \<and> calls_of QueueBackup (snd (check_queue orders_on_default example_world))
       = [(QueueBackupDetected (JStr ''orders'') (JNum 2000) 1000 (JStr ''/''), ''critical'')]"
  using processing_halt_only_when [where mon = example_monitor and messages = "JNum 2000000"
      and consume_rate = "JNum 0" and publish_rate = "JNum 5" and queue = ranges_backlog
      and w = example_world and v = example_world
      and kvs = "[(''name'', JStr ''orders''), (''vhost'', JStr ''/''),
              (''messages'', JNum 2000), (''consumers'', JNum 1)]"]
  by (simp add: eval_defs orders_on_default_def ranges_backlog_def calls_of_def rule_of_def)

section \<open>The high-memory rule\<close>

text \<open>What the search finds.\<close>

lemma ulp_exponent_spec:
  "- 1074 \<le> ulp_exponent n x \<and> ulp_exponent n x \<le> int n - 1074
   \<and> (ulp_exponent n x = - 1074 \<or> 2 powi (ulp_exponent n x + 52) \<le> x)
   \<and> (ulp_exponent n x = int n - 1074 \<or> x < 2 powi (ulp_exponent n x + 53))"
proof (induction n)
  case 0
  then show ?case by simp
next
  case (Suc n)
  show ?case
  proof (cases "2 powi (int n - 1021) \<le> x")
    case True
    then show ?thesis by (simp add: algebra_simps)
  next
    case False
    have eq: "ulp_exponent (Suc n) x = ulp_exponent n x" using False by simp
    have "x < 2 powi (ulp_exponent n x + 53)" if "ulp_exponent n x = int n - 1074"
    proof -
      have h: "int n - 1021 = ulp_exponent n x + 53" using that by linarith
      show ?thesis using False unfolding h by simp
    qed
    then show ?thesis
      using Suc.IH unfolding eq by auto
  qed
qed


lemma ulp_exponent_eq:
  assumes "2 powi (e + 52) \<le> x" "x < 2 powi (e + 53)" "- 1074 \<le> e" "e \<le> int n - 1074"
  shows "ulp_exponent n x = e"
proof -
  define q where "q = ulp_exponent n x"
  have spec: "- 1074 \<le> q" "q \<le> int n - 1074"
      "q = - 1074 \<or> 2 powi (q + 52) \<le> x" "q = int n - 1074 \<or> x < 2 powi (q + 53)"
    using ulp_exponent_spec [of n x] by (simp_all add: q_def)
  have "\<not> q < e"
  proof
    assume less: "q < e"
    then have "x < 2 powi (q + 53)" using spec(4) assms(4) by auto
    also have "(2::real) powi (q + 53) \<le> 2 powi (e + 52)"
      by (rule power_int_increasing) (use less in simp_all)
    finally show False using assms(1) by simp
  qed
  moreover have "\<not> e < q"
  proof
    assume less: "e < q"
    then have "2 powi (q + 52) \<le> x" using spec(3) assms(3) by auto
    moreover have "(2::real) powi (e + 53) \<le> 2 powi (q + 52)"
      by (rule power_int_increasing) (use less in simp_all)
    ultimately show False using assms(2) by simp
  qed
  ultimately show ?thesis by (simp add: q_def)
qed

lemma round_half_even_int [simp]: "round_half_even (real_of_int n) = n"
  by (simp add: round_half_even_def)

lemma round_half_even_ge_floor: "\<lfloor>q\<rfloor> \<le> round_half_even q"
  by (simp add: round_half_even_def Let_def)

text \<open>The double nearest to a real of a known binade.\<close>

lemma round_double_eval:
  assumes "2 powi e \<le> \<bar>x\<bar>" "\<bar>x\<bar> < 2 powi (e + 1)" "- 1022 \<le> e" "e \<le> 1023"
  shows "round_double x = real_of_int (round_half_even (x / 2 powi (e - 52))) * 2 powi (e - 52)"
proof -
  have "ulp_exponent 2045 \<bar>x\<bar> = e - 52"
    by (rule ulp_exponent_eq) (use assms in \<open>simp_all add: algebra_simps\<close>)
  then show ?thesis by (simp add: round_double_def Let_def)
qed

text \<open>A whole number below \<open>2 ^ 53\<close> is a double.\<close>

lemma round_double_int:
  assumes "\<bar>n\<bar> < 2 ^ 53"
  shows "round_double (real_of_int n) = real_of_int n"
proof -
  define q where "q = ulp_exponent 2045 \<bar>real_of_int n\<bar>"
  have x2: "\<bar>real_of_int n\<bar> < 2 powi 53"
  proof -
    have "real_of_int \<bar>n\<bar> < real_of_int (2 ^ 53)"
      using assms by (simp only: of_int_less_iff)
    then show ?thesis by simp
  qed
  have q0: "q \<le> 0"
  proof (rule ccontr)
    assume "\<not> q \<le> 0"
    then have pos: "0 < q" by simp
    then have "2 powi (q + 52) \<le> \<bar>real_of_int n\<bar>"
      using ulp_exponent_spec [of 2045 "\<bar>real_of_int n\<bar>"] by (simp add: q_def)
    moreover have "(2::real) powi 53 \<le> 2 powi (q + 52)"
      by (rule power_int_increasing) (use pos in simp_all)
    ultimately show False using x2 by simp
  qed
  define k where "k = nat (- q)"
  have pw: "(2::real) powi q = 1 / 2 ^ k"
    using q0 by (simp add: power_int_def k_def field_simps)
  have "real_of_int n / 2 powi q = real_of_int (n * 2 ^ k)"
    by (simp add: pw)
  then have "round_half_even (real_of_int n / 2 powi q) = n * 2 ^ k"
    by (simp only: round_half_even_int)
  then show ?thesis
    by (simp add: round_double_def Let_def pw q_def [symmetric])
qed

text \<open>Rounding does not take a real below a whole number that it is not below.\<close>

lemma round_double_ge_int:
  assumes m: "0 < m" "m \<le> 2 ^ 52" and x: "real_of_int m \<le> x"
  shows "real_of_int m \<le> round_double x"
proof -
  define q where "q = ulp_exponent 2045 \<bar>x\<bar>"
  have x1: "1 \<le> x" using m(1) x by linarith
  then have ax: "\<bar>x\<bar> = x" by simp
  have rd: "round_double x = real_of_int (round_half_even (x / 2 powi q)) * 2 powi q"
    by (simp add: round_double_def q_def Let_def)
  show ?thesis
  proof (cases "q \<le> 0")
    case True
    define k where "k = nat (- q)"
    have pw: "(2::real) powi q = 1 / 2 ^ k"
      using True by (simp add: power_int_def k_def field_simps)
    have "real_of_int (m * 2 ^ k) \<le> x * 2 ^ k" using x by simp
    then have "m * 2 ^ k \<le> \<lfloor>x * 2 ^ k\<rfloor>" by (simp only: le_floor_iff)
    also have "\<dots> \<le> round_half_even (x * 2 ^ k)" by (rule round_half_even_ge_floor)
    finally have "real_of_int (m * 2 ^ k) \<le> real_of_int (round_half_even (x * 2 ^ k))"
      by (simp only: of_int_le_iff)
    then have "real_of_int m \<le> real_of_int (round_half_even (x * 2 ^ k)) / 2 ^ k"
      by (simp add: field_simps)
    then show ?thesis by (simp add: rd pw)
  next
    case False
    define k where "k = nat q"
    have pw: "(2::real) powi q = 2 ^ k"
      using False by (simp add: power_int_def k_def)
    have q: "q = int k" using False by (simp add: k_def)
    have "q = - 1074 \<or> 2 powi (q + 52) \<le> \<bar>x\<bar>"
      using ulp_exponent_spec [of 2045 "\<bar>x\<bar>"] by (simp add: q_def)
    then have "2 powi (q + 52) \<le> x"
      using False unfolding ax by auto
    moreover have "(2::real) powi (q + 52) = 2 ^ 52 * 2 ^ k"
      unfolding q by (simp add: power_int_add)
    ultimately have "real_of_int (2 ^ 52) \<le> x / 2 ^ k"
      by (simp add: field_simps)
    then have "2 ^ 52 \<le> \<lfloor>x / 2 ^ k\<rfloor>" by (simp only: le_floor_iff)
    also have "\<dots> \<le> round_half_even (x / 2 ^ k)" by (rule round_half_even_ge_floor)
    finally have big: "real_of_int (2 ^ 52) \<le> real_of_int (round_half_even (x / 2 ^ k))"
      by (simp only: of_int_le_iff)
    have "real_of_int m \<le> real_of_int (2 ^ 52)" using m(2) by (simp only: of_int_le_iff)
    also have "\<dots> \<le> real_of_int (round_half_even (x / 2 ^ k))" by (rule big)
    also have "\<dots> \<le> real_of_int (round_half_even (x / 2 ^ k)) * 2 ^ k"
    proof -
      have "0 \<le> real_of_int (round_half_even (x / 2 ^ k))" using big by simp
      moreover have "(1::real) \<le> 2 ^ k" by simp
      ultimately show ?thesis by (simp add: mult_le_cancel_left1)
    qed
    finally show ?thesis by (simp add: rd pw)
  qed
qed

text \<open>
  Three percentages as Python computes them: \<^verbatim>\<open>850 / 1000 * 100\<close> is \<^verbatim>\<open>85.0\<close>,
  \<^verbatim>\<open>950 / 1000 * 100\<close> is \<^verbatim>\<open>95.0\<close>, and \<^verbatim>\<open>550000000 / 1000000000 * 100\<close> is
  \<^verbatim>\<open>55.00000000000001\<close>, one unit in the last place above 55.
\<close>

lemma percent_85: "round_double (round_double (850 / 1000) * 100) = 85"
proof -
  have q: "round_double (850 / 1000) = 7656119366529843 / 2 ^ 53"
    by (subst round_double_eval [where e = "-1"])
      (simp_all add: power_int_minus round_half_even_def Let_def)
  show ?thesis
    unfolding q
    by (subst round_double_eval [where e = 6])
      (simp_all add: power_int_minus round_half_even_def Let_def)
qed

lemma percent_95: "round_double (round_double (950 / 1000) * 100) = 95"
proof -
  have q: "round_double (950 / 1000) = 8556839292003942 / 2 ^ 53"
    by (subst round_double_eval [where e = "-1"])
      (simp_all add: power_int_minus round_half_even_def Let_def)
  show ?thesis
    unfolding q
    by (subst round_double_eval [where e = 6])
      (simp_all add: power_int_minus round_half_even_def Let_def)
qed

lemma percent_55:
  "round_double (round_double (550000000 / 1000000000) * 100) = 55 + 1 / 2 ^ 47"
proof -
  have q: "round_double (550000000 / 1000000000) = 4953959590107546 / 2 ^ 53"
    by (subst round_double_eval [where e = "-1"])
      (simp_all add: power_int_minus round_half_even_def Let_def)
  show ?thesis
    unfolding q
    by (subst round_double_eval [where e = 5])
      (simp_all add: power_int_minus round_half_even_def Let_def)
qed

lemma mem_percent_numeric:
  assumes "dict_get node ''mem_used'' (JNum 0) = Inr mem_used" "num_of mem_used = Some u"
    and "dict_get node ''mem_limit'' (JNum 1) = Inr mem_limit" "num_of mem_limit = Some l"
  shows "mem_percent node = Inr (if 0 < l then round_double (round_double (u / l) * 100) else 0)"
  using assms by (simp add: mem_percent_def py_gt_def py_truediv_def)

lemma memory_rule_effect:
  assumes name: "dict_get node ''name'' (JStr ''unknown'') = Inr name"
    and used: "dict_get node ''mem_used'' (JNum 0) = Inr mem_used"
    and pct: "mem_percent node = Inr pct"
  shows "calls_of Memory (snd (check_node node w)) =
     calls_of Memory w @
     (if real_of_int (max_memory_usage_percent (thresholds (self w))) < pct
         \<and> (case last_alerts (self w) (alert_key (py_repr w) Memory name) of
              None \<Rightarrow> True
            | Some t \<Rightarrow> real_of_int (default_alert_cooldown (self w)) \<le> time_now w - t)
      then [(HighMemoryUsage name pct (max_memory_usage_percent (thresholds (self w))) mem_used,
             if 90 < pct then ''critical'' else ''warning'')]
      else [])"
proof -
  let ?T = "max_memory_usage_percent (thresholds (self w))"
  let ?k = "alert_key (py_repr w) Memory name"
  let ?w1 = "if real_of_int ?T < pct
      then alert ?k None (HighMemoryUsage name pct ?T mem_used)
             (if 90 < pct then ''critical'' else ''warning'') w
      else w"
  let ?rest = "and_then (disk_rule node name) (\<lambda>_. node_down_rule node name)"
  have first: "memory_rule node name w = (Inr (), ?w1)"
    using used pct by (simp add: memory_rule_def)
  have chain: "check_node node w = ?rest ?w1"
    unfolding check_node_chain [OF name] by (simp add: and_then_def first)
  let ?I = "\<lambda>v::world. py_repr v = py_repr w \<and> calls_of Memory v = calls_of Memory ?w1"
  have I1: "?I ?w1" by simp
  have istep: "?I (alert (alert_key (py_repr v) r name) c m s v)"
    if "?I v" "rule_of m = Some r" "r \<noteq> Memory" for r m s v c
    using that by (simp add: alert_calls_other)
  have disk: "?I (snd (disk_rule node name v))" if "?I v" for v
    by (rule disk_rule_preserves [where P = ?I]) (use that istep in auto)
  have down: "?I (snd (node_down_rule node name v))" if "?I v" for v
    by (rule node_down_rule_preserves [where P = ?I]) (use that istep in auto)
  have "?I (snd (?rest ?w1))"
    by (intro and_then_preserves [where P = ?I] disk down I1)
  then have "calls_of Memory (snd (check_node node w)) = calls_of Memory ?w1"
    by (simp add: chain)
  then show ?thesis
    by (simp add: alert_calls_own should_send_alert_fst effective_cooldown_def
        split: option.splits)
qed

lemma memory_rule_no_error:
  "mem_percent node = Inr pct \<Longrightarrow> fst (memory_rule node name w) = Inr ()"
  by (simp add: memory_rule_def)



text \<open>
  Claim C8.  For a node whose memory figures are numbers, the memory percentage is the
  double that \<^verbatim>\<open>(mem_used / mem_limit) * 100\<close> evaluates to (the quotient rounded, and
  its product with 100 rounded) when the limit is positive and 0 otherwise, and computing
  it raises nothing: no division by zero is reached.  With a positive limit the check of
  the node calls \<^verbatim>\<open>send_slack_alert\<close> for the rule exactly when that percentage exceeds
  the configured threshold (and the cooldown check on the node's key passes), with
  severity critical when the percentage exceeds 90 and warning otherwise.  With a limit of
  zero and a threshold that is not negative, it makes no call for the rule.
\<close>

theorem high_memory_rule:
  assumes name: "dict_get node ''name'' (JStr ''unknown'') = Inr name"
    and used: "dict_get node ''mem_used'' (JNum 0) = Inr mem_used" "num_of mem_used = Some u"
    and limit: "dict_get node ''mem_limit'' (JNum 1) = Inr mem_limit" "num_of mem_limit = Some l"
  shows "mem_percent node = Inr (if 0 < l then round_double (round_double (u / l) * 100) else 0)
       \<and> fst (memory_rule node name w) = Inr ()
       \<and> (0 < l \<longrightarrow>
            calls_of Memory (snd (check_node node w)) =
              calls_of Memory w @
              (if real_of_int (max_memory_usage_percent (thresholds (self w)))
                    < round_double (round_double (u / l) * 100)
                  \<and> (case last_alerts (self w) (alert_key (py_repr w) Memory name) of
                       None \<Rightarrow> True
                     | Some t \<Rightarrow> real_of_int (default_alert_cooldown (self w)) \<le> time_now w - t)
               then [(HighMemoryUsage name (round_double (round_double (u / l) * 100))
                        (max_memory_usage_percent (thresholds (self w))) mem_used,
                      if 90 < round_double (round_double (u / l) * 100)
                      then ''critical'' else ''warning'')]
               else []))
       \<and> (l = 0 \<and> 0 \<le> max_memory_usage_percent (thresholds (self w)) \<longrightarrow>
            calls_of Memory (snd (check_node node w)) = calls_of Memory w)"
proof -
  have pct: "mem_percent node
      = Inr (if 0 < l then round_double (round_double (u / l) * 100) else 0)"
    by (rule mem_percent_numeric [OF used limit])
  show ?thesis
    using memory_rule_effect [OF name used(1) pct, of w] memory_rule_no_error [OF pct, of name w] pct
    by auto
qed

theorem high_memory_rule_witness:
  "mem_percent rabbit_node = Inr 85
   \<and> calls_of Memory (snd (check_node rabbit_node example_world))
       = [(HighMemoryUsage (JStr ''rabbit@a'') 85 80 (JNum 850), ''warning'')]
   \<and> mem_percent full_node = Inr 95
   \<and> calls_of Memory (snd (check_node full_node example_world))
       = [(HighMemoryUsage (JStr ''rabbit@b'') 95 80 (JNum 950), ''critical'')]
   \<and> mem_percent half_full_node = Inr (55 + 1 / 2 ^ 47)
   \<and> max_memory_usage_percent (thresholds (self threshold_55_world)) = 55
   \<and> calls_of Memory (snd (check_node half_full_node threshold_55_world))
       = [(HighMemoryUsage (JStr ''rabbit@e'') (55 + 1 / 2 ^ 47) 55 (JNum 550000000), ''warning'')]
   \<and> calls_of Memory (snd (check_node half_full_node example_world)) = []
   \<and> mem_percent zero_limit_node = Inr 0
   \<and> fst (memory_rule zero_limit_node (JStr ''rabbit@c'') example_world) = Inr ()
   \<and> calls_of Memory (snd (check_node zero_limit_node example_world)) = []"
  using high_memory_rule [of rabbit_node "JStr ''rabbit@a''" "JNum 850" 850 "JNum 1000" 1000
      example_world, unfolded percent_85]
    high_memory_rule [of full_node "JStr ''rabbit@b''" "JNum 950" 950 "JNum 1000" 1000
      example_world, unfolded percent_95]
    high_memory_rule [of half_full_node "JStr ''rabbit@e''" "JNum 550000000" 550000000
      "JNum 1000000000" 1000000000 threshold_55_world, unfolded percent_55]
    high_memory_rule [of half_full_node "JStr ''rabbit@e''" "JNum 550000000" 550000000
      "JNum 1000000000" 1000000000 example_world, unfolded percent_55]
    high_memory_rule [of zero_limit_node "JStr ''rabbit@c''" "JNum 850" 850 "JNum 0" 0
      example_world]
  by (simp add: rabbit_node_def full_node_def half_full_node_def zero_limit_node_def
        dict_get_def num_of_def threshold_55_world_def
        example_world_def example_monitor_def init_monitor_def default_thresholds_def
        calls_of_def alert_key_def key_prefix_def py_str_def time_now_def)

lemma percent_300: "round_double (round_double 3 * 100) = 300"
  using round_double_int [of 3] round_double_int [of 300] by simp

text \<open>
  Claim C10.  For a node snapshot without \<^verbatim>\<open>mem_limit\<close> the limit read is 1 and the
  memory percentage is the double of \<^verbatim>\<open>(mem_used / 1) * 100\<close>, which for a whole number
  of bytes (below \<open>2 ^ 53 / 100\<close>, ninety terabytes) is \<open>mem_used * 100\<close> itself; the check
  of the node then calls \<^verbatim>\<open>send_slack_alert\<close> for the rule exactly when that figure
  exceeds the threshold (and the cooldown check passes).  So with a threshold below 100,
  as the default 80 is, and no record under the node's key, it alerts, with severity
  critical, whenever \<open>mem_used\<close> is at least 1, whole or not.
\<close>

theorem missing_mem_limit:
  assumes name: "dict_get (JObj kvs) ''name'' (JStr ''unknown'') = Inr name"
    and used: "dict_get (JObj kvs) ''mem_used'' (JNum 0) = Inr mem_used" "num_of mem_used = Some u"
    and absent: "map_of kvs ''mem_limit'' = None"
  shows "dict_get (JObj kvs) ''mem_limit'' (JNum 1) = Inr (JNum 1)
       \<and> mem_percent (JObj kvs) = Inr (round_double (round_double u * 100))
       \<and> (u = real_of_int n \<and> \<bar>n\<bar> * 100 < 2 ^ 53 \<longrightarrow>
            mem_percent (JObj kvs) = Inr (u * 100)
            \<and> calls_of Memory (snd (check_node (JObj kvs) w)) =
                calls_of Memory w @
                (if real_of_int (max_memory_usage_percent (thresholds (self w))) < u * 100
                    \<and> (case last_alerts (self w) (alert_key (py_repr w) Memory name) of
                         None \<Rightarrow> True
                       | Some t \<Rightarrow>
                           real_of_int (default_alert_cooldown (self w)) \<le> time_now w - t)
                 then [(HighMemoryUsage name (u * 100)
                          (max_memory_usage_percent (thresholds (self w))) mem_used,
                        if 90 < u * 100 then ''critical'' else ''warning'')]
                 else []))
       \<and> (1 \<le> u \<and> max_memory_usage_percent (thresholds (self w)) < 100
            \<and> last_alerts (self w) (alert_key (py_repr w) Memory name) = None \<longrightarrow>
            calls_of Memory (snd (check_node (JObj kvs) w)) =
              calls_of Memory w @
              [(HighMemoryUsage name (round_double (round_double u * 100))
                  (max_memory_usage_percent (thresholds (self w))) mem_used, ''critical'')])"
proof -
  let ?p = "round_double (round_double u * 100)"
  let ?T = "max_memory_usage_percent (thresholds (self w))"
  have limit: "dict_get (JObj kvs) ''mem_limit'' (JNum 1) = Inr (JNum 1)"
    using absent by (simp add: dict_get_def)
  have pct: "mem_percent (JObj kvs) = Inr ?p"
    using mem_percent_numeric [OF used limit, of 1] by (simp add: num_of_def)
  have whole: "?p = u * 100" if "u = real_of_int n" "\<bar>n\<bar> * 100 < 2 ^ 53"
  proof -
    have "\<bar>n\<bar> < 2 ^ 53" using that(2) by linarith
    then have "round_double u = real_of_int n"
      unfolding that(1) by (rule round_double_int)
    moreover have "\<bar>n * 100\<bar> < 2 ^ 53" using that(2) by (simp add: abs_mult)
    then have "round_double (real_of_int (n * 100)) = real_of_int (n * 100)"
      by (rule round_double_int)
    ultimately show ?thesis by (simp add: that(1))
  qed
  have big: "real_of_int ?T < ?p \<and> 90 < ?p" if "1 \<le> u" "?T < 100"
  proof -
    have "real_of_int 1 \<le> round_double u"
      by (rule round_double_ge_int) (use that(1) in simp_all)
    then have "real_of_int 100 \<le> round_double u * 100" by simp
    then have "real_of_int 100 \<le> ?p"
      by (rule round_double_ge_int [rotated 2]) simp_all
    moreover from that(2) have "real_of_int ?T < 100" by linarith
    ultimately show ?thesis by simp
  qed
  show ?thesis
  proof (intro conjI impI)
    show "dict_get (JObj kvs) ''mem_limit'' (JNum 1) = Inr (JNum 1)" by (rule limit)
    show "mem_percent (JObj kvs) = Inr ?p" by (rule pct)
  next
    assume "u = real_of_int n \<and> \<bar>n\<bar> * 100 < 2 ^ 53"
    then have eq: "?p = u * 100" using whole by blast
    show "mem_percent (JObj kvs) = Inr (u * 100)" using pct eq by simp
    show "calls_of Memory (snd (check_node (JObj kvs) w)) =
        calls_of Memory w @
        (if real_of_int ?T < u * 100
            \<and> (case last_alerts (self w) (alert_key (py_repr w) Memory name) of
                 None \<Rightarrow> True
               | Some t \<Rightarrow> real_of_int (default_alert_cooldown (self w)) \<le> time_now w - t)
         then [(HighMemoryUsage name (u * 100) ?T mem_used,
                if 90 < u * 100 then ''critical'' else ''warning'')]
         else [])"
      using memory_rule_effect [OF name used(1) pct, of w] unfolding eq .
  next
    assume "1 \<le> u \<and> ?T < 100 \<and> last_alerts (self w) (alert_key (py_repr w) Memory name) = None"
    then show "calls_of Memory (snd (check_node (JObj kvs) w)) =
        calls_of Memory w @ [(HighMemoryUsage name ?p ?T mem_used, ''critical'')]"
      using memory_rule_effect [OF name used(1) pct, of w] big by simp
  qed
qed

theorem missing_mem_limit_witness:
  "map_of [(''name'', JStr ''rabbit@d''), (''mem_used'', JNum 3), (''running'', JBool True)]
       ''mem_limit'' = None
   \<and> mem_percent limitless_node = Inr 300
   \<and> max_memory_usage_percent (thresholds (self example_world)) = 80
   \<and> calls_of Memory (snd (check_node limitless_node example_world))
       = [(HighMemoryUsage (JStr ''rabbit@d'') 300 80 (JNum 3), ''critical'')]"
  using missing_mem_limit [of "[(''name'', JStr ''rabbit@d''), (''mem_used'', JNum 3),
        (''running'', JBool True)]" "JStr ''rabbit@d''" "JNum 3" 3 3 example_world]
  by (simp add: percent_300 limitless_node_def dict_get_def num_of_def
        example_world_def example_monitor_def init_monitor_def default_thresholds_def
        calls_of_def alert_key_def key_prefix_def py_str_def time_now_def)


section \<open>Fetch failures and the connectivity rule\<close>

lemma get_api_data_counter:
  "connection_failures (self (snd (get_api_data endpoint w))) =
     (case http_get w (gets w) of
        RequestRaised \<Rightarrow> connection_failures (self w) + 1
      | Response status body \<Rightarrow>
          if status = 200 then (case body of Some j \<Rightarrow> 0 | None \<Rightarrow> 1)
          else connection_failures (self w))"
  by (simp add: get_api_data_def Let_def split: http_result.splits option.splits)

lemma get_api_data_result:
  "fst (get_api_data endpoint w) =
     (case http_get w (gets w) of
        RequestRaised \<Rightarrow> JNull
      | Response status body \<Rightarrow>
          if status = 200 then (case body of Some j \<Rightarrow> j | None \<Rightarrow> JNull) else JNull)"
  by (simp add: get_api_data_def Let_def split: http_result.splits option.splits)

lemma get_api_data_env [simp]:
  "http_get (snd (get_api_data endpoint w)) = http_get w"
  "gets (snd (get_api_data endpoint w)) = Suc (gets w)"
  "slack_calls (snd (get_api_data endpoint w)) = slack_calls w"
  "clock (snd (get_api_data endpoint w)) = clock w"
  "clock_reads (snd (get_api_data endpoint w)) = clock_reads w"
  "py_repr (snd (get_api_data endpoint w)) = py_repr w"
  "last_alerts (self (snd (get_api_data endpoint w))) = last_alerts (self w)"
  "thresholds (self (snd (get_api_data endpoint w))) = thresholds (self w)"
  "default_alert_cooldown (self (snd (get_api_data endpoint w))) = default_alert_cooldown (self w)"
  by (simp_all add: get_api_data_def Let_def split: http_result.splits option.splits)

lemma check_connections_calls:
  "slack_calls (snd (check_connections w)) =
     slack_calls w @
     (if connection_failure_threshold (thresholds (self w)) \<le> connection_failures (self w)
         \<and> (case last_alerts (self w) connection_key of
              None \<Rightarrow> True
            | Some t \<Rightarrow> real_of_int (default_alert_cooldown (self w)) \<le> time_now w - t)
      then [(ApiConnectionFailed (connection_failures (self w)), ''critical'')]
      else [])"
  by (simp add: check_connections_def alert_slack_calls should_send_alert_fst
        effective_cooldown_def split: option.splits)


text \<open>
  Claim C3, as amended.  A fetch that raises (a network error or timeout) adds one to the
  failure counter; a response with status 200 sets the counter to zero (and to one if its
  body cannot be decoded, which raises after the reset); a response with any other status
  leaves the counter as it was.  Every fetch but a decoded 200 response returns
  \<open>None\<close>.  \<open>check_connections\<close> never raises, and it calls \<^verbatim>\<open>send_slack_alert\<close>, once and
  with severity critical, exactly when the counter is at least the configured threshold
  (3 by default) and the cooldown check on the key \<^verbatim>\<open>connection_failures\<close> passes.
\<close>

theorem connection_failure_counter:
  "connection_failures (self (snd (get_api_data endpoint w))) =
     (case http_get w (gets w) of
        RequestRaised \<Rightarrow> connection_failures (self w) + 1
      | Response status body \<Rightarrow>
          if status = 200 then (case body of Some j \<Rightarrow> 0 | None \<Rightarrow> 1)
          else connection_failures (self w))
   \<and> fst (get_api_data endpoint w) =
     (case http_get w (gets w) of
        RequestRaised \<Rightarrow> JNull
      | Response status body \<Rightarrow>
          if status = 200 then (case body of Some j \<Rightarrow> j | None \<Rightarrow> JNull) else JNull)
   \<and> fst (check_connections w) = Inr ()
   \<and> slack_calls (snd (check_connections w)) =
     slack_calls w @
     (if connection_failure_threshold (thresholds (self w)) \<le> connection_failures (self w)
         \<and> (case last_alerts (self w) connection_key of
              None \<Rightarrow> True
            | Some t \<Rightarrow> real_of_int (default_alert_cooldown (self w)) \<le> time_now w - t)
      then [(ApiConnectionFailed (connection_failures (self w)), ''critical'')]
      else [])
   \<and> connection_failure_threshold default_thresholds = 3"
  by (simp add: get_api_data_counter get_api_data_result check_connections_calls
        default_thresholds_def)
    (simp add: check_connections_def)


text \<open>
  Claim C3 as stated fails on a non-success status: a fetch answered with status 500 fails
  and leaves the counter at 0, and after four such fetches the connectivity rule is silent.
\<close>

theorem connection_failure_status_counterexample:
  "http_get status_500_world (gets status_500_world) = Response 500 None
   \<and> fst (get_api_data ''queues'' status_500_world) = JNull
   \<and> connection_failures (self status_500_world) = 0
   \<and> connection_failures (self (snd (get_api_data ''queues'' status_500_world))) = 0
   \<and> connection_failures (self (snd (get_api_data ''nodes'' (snd (get_api_data ''queues''
        (snd (get_api_data ''nodes'' (snd (get_api_data ''queues'' status_500_world))))))))) = 0
   \<and> slack_calls (snd (check_connections (snd (get_api_data ''nodes'' (snd (get_api_data ''queues''
        (snd (get_api_data ''nodes'' (snd (get_api_data ''queues'' status_500_world)))))))))) = []"
  by (simp add: status_500_world_def example_world_def example_monitor_def init_monitor_def
        default_thresholds_def get_api_data_def check_connections_def say_def update_self_def
        Let_def)

theorem connection_failure_counter_witness:
  "connection_failures (self (snd (get_api_data ''queues'' example_world))) = 1
   \<and> connection_failures (self (snd (get_api_data ''queues'' (snd (get_api_data ''nodes''
        (snd (get_api_data ''queues'' example_world))))))) = 3
   \<and> slack_calls (snd (check_connections (snd (get_api_data ''queues'' (snd (get_api_data ''nodes''
        (snd (get_api_data ''queues'' example_world)))))))) = [(ApiConnectionFailed 3, ''critical'')]
   \<and> connection_failures (self (snd (get_api_data ''queues''
        ((snd (get_api_data ''queues'' example_world))
           \<lparr>http_get := (\<lambda>n. Response 200 (Some (JArr [])))\<rparr>)))) = 0"
  using connection_failure_counter [of "''queues''" example_world]
    connection_failure_counter [of "''queues''" "snd (get_api_data ''nodes''
        (snd (get_api_data ''queues'' example_world)))"]
    connection_failure_counter [of "''queues''" "(snd (get_api_data ''queues'' example_world))
           \<lparr>http_get := (\<lambda>n. Response 200 (Some (JArr [])))\<rparr>"]
  by (simp add: example_world_def example_monitor_def init_monitor_def
        default_thresholds_def get_api_data_def check_connections_def say_def update_self_def
        Let_def alert_eq should_send_alert_def send_slack_alert_def time_now_def tick_def
        effective_cooldown_def connection_key_def)

section \<open>The cycle boundary\<close>

lemma send_slack_alert_running:
  "count_list (logged (send_slack_alert m s w)) (INFO, LogRunning)
     = count_list (logged w) (INFO, LogRunning)"
  by (simp add: send_slack_alert_def Let_def split: post_result.splits)

lemma alert_running:
  "count_list (logged (alert k cd m s w)) (INFO, LogRunning)
     = count_list (logged w) (INFO, LogRunning)"
  by (simp add: alert_eq send_slack_alert_running)

lemma get_api_data_running:
  "count_list (logged (snd (get_api_data endpoint w))) (INFO, LogRunning)
     = count_list (logged w) (INFO, LogRunning)"
  by (simp add: get_api_data_def Let_def split: http_result.splits option.splits)

lemma check_queue_running:
  "count_list (logged (snd (check_queue queue w))) (INFO, LogRunning)
     = count_list (logged w) (INFO, LogRunning)"
proof (cases "dict_get queue ''name'' (JStr ''unknown'')")
  case (Inl e)
  then show ?thesis by (simp add: check_queue_not_dict)
next
  case (Inr name)
  let ?P = "\<lambda>v::world. count_list (logged v) (INFO, LogRunning)
      = count_list (logged w) (INFO, LogRunning)"
  have "?P (snd (check_queue queue w)) \<and> py_repr (snd (check_queue queue w)) = py_repr w"
    by (rule check_queue_preserves [where P = ?P, OF _ Inr refl refl])
      (simp_all add: alert_running)
  then show ?thesis by simp
qed

lemma check_node_running:
  "count_list (logged (snd (check_node node w))) (INFO, LogRunning)
     = count_list (logged w) (INFO, LogRunning)"
proof (cases "dict_get node ''name'' (JStr ''unknown'')")
  case (Inl e)
  then show ?thesis by (simp add: check_node_not_dict)
next
  case (Inr name)
  let ?P = "\<lambda>v::world. count_list (logged v) (INFO, LogRunning)
      = count_list (logged w) (INFO, LogRunning)"
  have "?P (snd (check_node node w)) \<and> py_repr (snd (check_node node w)) = py_repr w"
    by (rule check_node_preserves [where P = ?P, OF _ Inr refl])
      (simp_all add: alert_running)
  then show ?thesis by simp
qed

lemma for_each_running:
  assumes "\<And>x v. count_list (logged (snd (f x v))) (INFO, LogRunning)
      = count_list (logged v) (INFO, LogRunning)"
  shows "count_list (logged (snd (for_each f xs w))) (INFO, LogRunning)
      = count_list (logged w) (INFO, LogRunning)"
  by (rule for_each_preserves [where P = "\<lambda>v. count_list (logged v) (INFO, LogRunning)
      = count_list (logged w) (INFO, LogRunning)"]) (simp_all add: assms)

lemma check_queue_health_running:
  "count_list (logged (snd (check_queue_health w))) (INFO, LogRunning)
     = count_list (logged w) (INFO, LogRunning)"
proof (cases "get_api_data ''queues'' w")
  case (Pair queues w1)
  then have w1: "count_list (logged w1) (INFO, LogRunning) = count_list (logged w) (INFO, LogRunning)"
    using get_api_data_running [of "''queues''" w] by simp
  show ?thesis
    using Pair w1
    by (cases "py_iter queues")
      (simp_all add: check_queue_health_def and_then_def lift_def
        for_each_running [of check_queue, OF check_queue_running])
qed

lemma check_node_health_running:
  "count_list (logged (snd (check_node_health w))) (INFO, LogRunning)
     = count_list (logged w) (INFO, LogRunning)"
proof (cases "get_api_data ''nodes'' w")
  case (Pair nodes w1)
  then have w1: "count_list (logged w1) (INFO, LogRunning) = count_list (logged w) (INFO, LogRunning)"
    using get_api_data_running [of "''nodes''" w] by simp
  show ?thesis
    using Pair w1
    by (cases "py_iter nodes")
      (simp_all add: check_node_health_def and_then_def lift_def
        for_each_running [of check_node, OF check_node_running])
qed

lemma check_connections_running:
  "count_list (logged (snd (check_connections w))) (INFO, LogRunning)
     = count_list (logged w) (INFO, LogRunning)"
  by (simp add: check_connections_def alert_running)

lemma gather_snd:
  "snd (gather a b c w) = snd (c (snd (b (snd (a w)))))"
  by (simp add: gather_def split: prod.splits)

lemma run_cycle_no_error: "fst (run_cycle body w) = Inr ()"
  by (simp add: run_cycle_def split: prod.splits sum.splits)

lemma run_health_check_running:
  "count_list (logged (snd (run_health_check w))) (INFO, LogRunning)
     = Suc (count_list (logged w) (INFO, LogRunning))"
proof -
  let ?w0 = "say INFO LogRunning w"
  let ?body = "gather check_queue_health check_node_health check_connections"
  have "count_list (logged (snd (?body ?w0))) (INFO, LogRunning)
      = Suc (count_list (logged w) (INFO, LogRunning))"
    by (simp add: gather_snd check_connections_running check_node_health_running
        check_queue_health_running)
  then show ?thesis
    by (cases "?body ?w0")
      (auto simp: run_health_check_def run_cycle_def send_slack_alert_running split: sum.splits)
qed

lemma monitoring_loop_step:
  "monitoring_loop interval (Suc n) w = monitoring_loop interval n (snd (run_health_check w))"
  using run_cycle_no_error [of "gather check_queue_health check_node_health check_connections" w]
  by (cases "run_health_check w")
    (simp add: and_then_def sleep_def ret_def run_health_check_def)

lemma monitoring_loop_runs:
  "fst (monitoring_loop interval n w) = Inr ()
   \<and> count_list (logged (snd (monitoring_loop interval n w))) (INFO, LogRunning)
       = count_list (logged w) (INFO, LogRunning) + n"
proof (induction n arbitrary: w)
  case 0
  show ?case by (simp add: ret_def)
next
  case (Suc n)
  show ?case
    unfolding monitoring_loop_step
    using Suc [of "snd (run_health_check w)"] by (simp add: run_health_check_running)
qed


text \<open>
  Claim C7.  A cycle never raises, whatever its body does: when the body raises \<open>e\<close>, the
  error is logged and \<^verbatim>\<open>send_slack_alert\<close> is called once more, with the monitoring-error
  message for \<open>e\<close> and severity critical; when the body returns, no call is added.  So
  \<open>run_health_check\<close> never raises, the scheduling loop goes on to its next round after
  every cycle, and \<open>start_monitoring\<close> never raises and starts all \<open>n\<close> of its first \<open>n\<close>
  cycles.  Exceptions are those of class \<^verbatim>\<open>Exception\<close>, which is what the handler catches.
\<close>

theorem cycle_errors_caught:
  "fst (run_cycle body w) = Inr ()
   \<and> (fst (body (say INFO LogRunning w)) = Inl e \<longrightarrow>
        slack_calls (snd (run_cycle body w))
          = slack_calls (snd (body (say INFO LogRunning w))) @ [(MonitoringError e, ''critical'')]
        \<and> (ERROR, LogCheckError e) \<in> set (logged (snd (run_cycle body w))))
   \<and> (fst (body (say INFO LogRunning w)) = Inr () \<longrightarrow>
        slack_calls (snd (run_cycle body w)) = slack_calls (snd (body (say INFO LogRunning w))))
   \<and> fst (run_health_check w) = Inr ()
   \<and> monitoring_loop interval (Suc n) w = monitoring_loop interval n (snd (run_health_check w))
   \<and> fst (start_monitoring interval n w) = Inr ()
   \<and> count_list (logged (snd (start_monitoring interval n w))) (INFO, LogRunning)
       = count_list (logged w) (INFO, LogRunning) + n"
proof (intro conjI impI)
  show "fst (run_cycle body w) = Inr ()" by (rule run_cycle_no_error)
  show "fst (run_health_check w) = Inr ()"
    unfolding run_health_check_def by (rule run_cycle_no_error)
  show "monitoring_loop interval (Suc n) w = monitoring_loop interval n (snd (run_health_check w))"
    by (rule monitoring_loop_step)
  let ?w0 = "send_slack_alert (MonitoringStarted interval) ''info'' (say INFO (LogStarting interval) w)"
  have start: "start_monitoring interval n w = monitoring_loop interval n ?w0"
    by (simp add: start_monitoring_def)
  show "fst (start_monitoring interval n w) = Inr ()"
    unfolding start using monitoring_loop_runs [of interval n ?w0] by simp
  show "count_list (logged (snd (start_monitoring interval n w))) (INFO, LogRunning)
       = count_list (logged w) (INFO, LogRunning) + n"
    unfolding start using monitoring_loop_runs [of interval n ?w0]
    by (simp add: send_slack_alert_running)
next
  assume "fst (body (say INFO LogRunning w)) = Inl e"
  then show "slack_calls (snd (run_cycle body w))
          = slack_calls (snd (body (say INFO LogRunning w))) @ [(MonitoringError e, ''critical'')]"
    and "(ERROR, LogCheckError e) \<in> set (logged (snd (run_cycle body w)))"
    by (cases "body (say INFO LogRunning w)";
        simp add: run_cycle_def send_slack_alert_def Let_def split: post_result.splits)+
next
  assume "fst (body (say INFO LogRunning w)) = Inr ()"
  then show "slack_calls (snd (run_cycle body w)) = slack_calls (snd (body (say INFO LogRunning w)))"
    by (cases "body (say INFO LogRunning w)") (simp add: run_cycle_def)
qed


theorem cycle_errors_caught_witness:
  "fst (gather check_queue_health check_node_health check_connections
         (say INFO LogRunning malformed_world)) = Inl AttributeError
   \<and> fst (run_health_check malformed_world) = Inr ()
   \<and> slack_calls (snd (run_health_check malformed_world))
       = [(MonitoringError AttributeError, ''critical'')]
   \<and> (ERROR, LogCheckError AttributeError) \<in> set (logged (snd (run_health_check malformed_world)))
   \<and> fst (start_monitoring 60 2 malformed_world) = Inr ()
   \<and> slack_calls (snd (start_monitoring 60 2 malformed_world))
       = [(MonitoringStarted 60, ''info''), (MonitoringError AttributeError, ''critical''),
          (MonitoringError AttributeError, ''critical'')]
   \<and> count_list (logged (snd (start_monitoring 60 2 malformed_world))) (INFO, LogRunning) = 2"
  using cycle_errors_caught [where body = "gather check_queue_health check_node_health
        check_connections" and w = malformed_world and e = AttributeError and interval = 60
      and n = 2]
  by (simp add: numeral_2_eq_2 start_monitoring_def sleep_def run_health_check_def run_cycle_def
        gather_def check_queue_health_def check_node_health_def check_connections_def
        get_api_data_def py_bool_def py_iter_def check_node_def malformed_world_def eval_defs)

end
